theory Spec2Isabelle
  imports Main "HOL-Library.Sublist" "HOL-Library.Multiset"
begin

section \<open>Strings and values of the host language\<close>

text \<open>
  Strings are modelled by their UTF-8 bytes, so the Chinese message texts of the source
  are byte lists; substring search and equality on the bytes agree with the same
  operations on the characters. Every message constant below is the text of the source,
  byte for byte.
\<close>

fun str_includes :: "string \<Rightarrow> string \<Rightarrow> bool" where
  "str_includes [] sub = (sub = [])"
| "str_includes (c # cs) sub = (prefix sub (c # cs) \<or> str_includes cs sub)"

text \<open>\<open>String.prototype.replace\<close> with a string pattern: the first occurrence only.\<close>

fun replace :: "string \<Rightarrow> string \<Rightarrow> string \<Rightarrow> string" where
  "replace [] pat rep = (if pat = [] then rep else [])"
| "replace (c # cs) pat rep =
     (if prefix pat (c # cs) then rep @ drop (length pat) (c # cs)
      else c # replace cs pat rep)"

text \<open>
  \<open>String.prototype.trim\<close> removes white space and line terminators at both ends: the
  six ASCII ones and the UTF-8 encodings of U+00A0, U+1680, U+2000 to U+200A, U+2028,
  U+2029, U+202F, U+205F, U+3000 and U+FEFF.
\<close>

definition white_space :: "string list" where
  "white_space =
     [[CHR 0x09], [CHR 0x0A], [CHR 0x0B], [CHR 0x0C], [CHR 0x0D], [CHR 0x20],
      [CHR 0xC2, CHR 0xA0], [CHR 0xE1, CHR 0x9A, CHR 0x80],
      [CHR 0xE2, CHR 0x80, CHR 0x80], [CHR 0xE2, CHR 0x80, CHR 0x81],
      [CHR 0xE2, CHR 0x80, CHR 0x82], [CHR 0xE2, CHR 0x80, CHR 0x83],
      [CHR 0xE2, CHR 0x80, CHR 0x84], [CHR 0xE2, CHR 0x80, CHR 0x85],
      [CHR 0xE2, CHR 0x80, CHR 0x86], [CHR 0xE2, CHR 0x80, CHR 0x87],
      [CHR 0xE2, CHR 0x80, CHR 0x88], [CHR 0xE2, CHR 0x80, CHR 0x89],
      [CHR 0xE2, CHR 0x80, CHR 0x8A], [CHR 0xE2, CHR 0x80, CHR 0xA8],
      [CHR 0xE2, CHR 0x80, CHR 0xA9], [CHR 0xE2, CHR 0x80, CHR 0xAF],
      [CHR 0xE2, CHR 0x81, CHR 0x9F], [CHR 0xE3, CHR 0x80, CHR 0x80],
      [CHR 0xEF, CHR 0xBB, CHR 0xBF]]"

fun strip :: "string list \<Rightarrow> string \<Rightarrow> string" where
  "strip ws [] = []"
| "strip ws (c # cs) =
     (case find (\<lambda>w. prefix w (c # cs)) ws of
        None \<Rightarrow> c # cs
      | Some w \<Rightarrow> strip ws (drop (length w - 1) cs))"

definition trim :: "string \<Rightarrow> string" where
  "trim s = rev (strip (map rev white_space) (rev (strip white_space s)))"

text \<open>Array \<open>join\<close>.\<close>

fun join :: "string list \<Rightarrow> string \<Rightarrow> string" where
  "join [] sep = []"
| "join [x] sep = x"
| "join (x # y # ys) sep = x @ sep @ join (y # ys) sep"

text \<open>
  Numbers are the naturals here: every number the code under study handles is a count of
  commits, a count of report lines or a number of seconds. Their decimal text is what a
  template string inserts.
\<close>

definition digit_char :: "nat \<Rightarrow> char" where
  "digit_char d = ''0123456789'' ! (d mod 10)"

fun show_nat :: "nat \<Rightarrow> string" where
  "show_nat n = (if n < 10 then [digit_char n] else show_nat (n div 10) @ [digit_char n])"

declare show_nat.simps [simp del]

definition digit_val :: "char \<Rightarrow> nat option" where
  "digit_val c = (if c \<in> set ''0123456789'' then Some (of_char c - 48) else None)"

text \<open>
  \<open>Number(s)\<close> for the text captured by \<open>(\d+)\<close>, and for \<open>undefined\<close>: a numeral is
  read in base ten, anything else is NaN, which is \<open>None\<close>.
\<close>

fun digits_val :: "nat \<Rightarrow> string \<Rightarrow> nat option" where
  "digits_val acc [] = Some acc"
| "digits_val acc (c # cs) =
     (case digit_val c of None \<Rightarrow> None | Some d \<Rightarrow> digits_val (10 * acc + d) cs)"

definition Number :: "string option \<Rightarrow> nat option" where
  "Number v = (case v of None \<Rightarrow> None | Some s \<Rightarrow> if s = [] then Some 0 else digits_val 0 s)"

text \<open>
  An optional string is a value that may be \<open>undefined\<close>. It is truthy when it is a
  non-empty string; a template string prints \<open>undefined\<close> by name.
\<close>

definition truthy :: "string option \<Rightarrow> bool" where
  "truthy v = (case v of None \<Rightarrow> False | Some s \<Rightarrow> s \<noteq> [])"

definition show_opt :: "string option \<Rightarrow> string" where
  "show_opt v = (case v of None \<Rightarrow> ''undefined'' | Some s \<Rightarrow> s)"

subsection \<open>Message texts\<close>

definition msg_get_failed :: string where
  "msg_get_failed = [CHR 0xE8, CHR 0x8E, CHR 0xB7, CHR 0xE5, CHR 0x8F, CHR 0x96, CHR 0xE5, CHR 0xA4, CHR 0xB1, CHR 0xE8, CHR 0xB4, CHR 0xA5, CHR 0xEF, CHR 0xBC, CHR 0x8C]"

definition msg_not_installed :: string where
  "msg_not_installed = '' '' @ [CHR 0xE6, CHR 0x9C, CHR 0xAA, CHR 0xE5, CHR 0xAE, CHR 0x89, CHR 0xE8, CHR 0xA3, CHR 0x85]"

definition msg_no_update :: string where
  "msg_no_update = [CHR 0xE6, CHR 0x97, CHR 0xA0, CHR 0xE6, CHR 0x9B, CHR 0xB4, CHR 0xE6, CHR 0x96, CHR 0xB0]"

definition msg_update_failed :: string where
  "msg_update_failed = [CHR 0xE6, CHR 0x9B, CHR 0xB4, CHR 0xE6, CHR 0x96, CHR 0xB0, CHR 0xE5, CHR 0xA4, CHR 0xB1, CHR 0xE8, CHR 0xB4, CHR 0xA5]"

definition msg_update_ok :: string where
  "msg_update_ok = [CHR 0xE6, CHR 0x9B, CHR 0xB4, CHR 0xE6, CHR 0x96, CHR 0xB0, CHR 0xE6, CHR 0x88, CHR 0x90, CHR 0xE5, CHR 0x8A, CHR 0x9F]"

definition msg_try_manual :: string where
  "msg_try_manual = '' '' @ [CHR 0xE8, CHR 0xAF, CHR 0xB7, CHR 0xE5, CHR 0xB0, CHR 0x9D, CHR 0xE8, CHR 0xAF, CHR 0x95, CHR 0xE6, CHR 0x89, CHR 0x8B, CHR 0xE5, CHR 0x8A, CHR 0xA8, CHR 0xE6, CHR 0x9B, CHR 0xB4, CHR 0xE6, CHR 0x96, CHR 0xB0] @ '' pnpm up ''"

definition msg_nothing_to_update :: string where
  "msg_nothing_to_update = [CHR 0xE6, CHR 0xB2, CHR 0xA1, CHR 0xE6, CHR 0x9C, CHR 0x89, CHR 0xE5, CHR 0x8F, CHR 0xAF, CHR 0xE6, CHR 0x9B, CHR 0xB4, CHR 0xE6, CHR 0x96, CHR 0xB0, CHR 0xE7, CHR 0x9A, CHR 0x84, CHR 0xE6, CHR 0x8F, CHR 0x92, CHR 0xE4, CHR 0xBB, CHR 0xB6] @ ''~''"

definition msg_failed_count :: string where
  "msg_failed_count = ''['' @ [CHR 0xE6, CHR 0x9B, CHR 0xB4, CHR 0xE6, CHR 0x96, CHR 0xB0, CHR 0xE5, CHR 0xA4, CHR 0xB1, CHR 0xE8, CHR 0xB4, CHR 0xA5] @ ''] '' @ [CHR 0xE6, CHR 0x9B, CHR 0xB4, CHR 0xE6, CHR 0x96, CHR 0xB0, CHR 0xE6, CHR 0x95, CHR 0xB0, CHR 0xE9, CHR 0x87, CHR 0x8F] @ '': ''"

definition msg_see_log :: string where
  "msg_see_log = [CHR 0xE6, CHR 0x9B, CHR 0xB4, CHR 0xE6, CHR 0x96, CHR 0xB0, CHR 0xE5, CHR 0xA4, CHR 0xB1, CHR 0xE8, CHR 0xB4, CHR 0xA5, CHR 0xEF, CHR 0xBC, CHR 0x8C, CHR 0xE8, CHR 0xAF, CHR 0xB7, CHR 0xE6, CHR 0x9F, CHR 0xA5, CHR 0xE7, CHR 0x9C, CHR 0x8B, CHR 0xE6, CHR 0x97, CHR 0xA5, CHR 0xE5, CHR 0xBF, CHR 0x97]"

definition msg_no_path :: string where
  "msg_no_path = [CHR 0xE8, CHR 0xB7, CHR 0xAF, CHR 0xE5, CHR 0xBE, CHR 0x84, CHR 0xE4, CHR 0xB8, CHR 0x8D, CHR 0xE5, CHR 0xAD, CHR 0x98, CHR 0xE5, CHR 0x9C, CHR 0xA8]"

definition msg_not_git :: string where
  "msg_not_git = [CHR 0xE8, CHR 0xAF, CHR 0xA5, CHR 0xE8, CHR 0xB7, CHR 0xAF, CHR 0xE5, CHR 0xBE, CHR 0x84, CHR 0xE4, CHR 0xB8, CHR 0x8D, CHR 0xE6, CHR 0x98, CHR 0xAF, CHR 0xE4, CHR 0xB8, CHR 0x80, CHR 0xE4, CHR 0xB8, CHR 0xAA] @ ''git'' @ [CHR 0xE4, CHR 0xBB, CHR 0x93, CHR 0xE5, CHR 0xBA, CHR 0x93]"

definition msg_latest :: string where
  "msg_latest = [CHR 0xE5, CHR 0xBD, CHR 0x93, CHR 0xE5, CHR 0x89, CHR 0x8D, CHR 0xE7, CHR 0x89, CHR 0x88, CHR 0xE6, CHR 0x9C, CHR 0xAC, CHR 0xE5, CHR 0xB7, CHR 0xB2, CHR 0xE6, CHR 0x98, CHR 0xAF, CHR 0xE6, CHR 0x9C, CHR 0x80, CHR 0xE6, CHR 0x96, CHR 0xB0, CHR 0xE7, CHR 0x89, CHR 0x88, CHR 0xE6, CHR 0x9C, CHR 0xAC, CHR 0x0A, CHR 0xE6, CHR 0x9C, CHR 0x80, CHR 0xE5, CHR 0x90, CHR 0x8E, CHR 0xE6, CHR 0x9B, CHR 0xB4, CHR 0xE6, CHR 0x96, CHR 0xB0, CHR 0xE6, CHR 0x97, CHR 0xB6, CHR 0xE9, CHR 0x97, CHR 0xB4, CHR 0xEF, CHR 0xBC, CHR 0x9A]"

definition msg_time_failed :: string where
  "msg_time_failed = [CHR 0xE8, CHR 0x8E, CHR 0xB7, CHR 0xE5, CHR 0x8F, CHR 0x96, CHR 0xE6, CHR 0x9C, CHR 0x80, CHR 0xE5, CHR 0x90, CHR 0x8E, CHR 0xE4, CHR 0xB8, CHR 0x80, CHR 0xE6, CHR 0xAC, CHR 0xA1, CHR 0xE6, CHR 0x8F, CHR 0x90, CHR 0xE4, CHR 0xBA, CHR 0xA4, CHR 0xE6, CHR 0x97, CHR 0xB6, CHR 0xE9, CHR 0x97, CHR 0xB4, CHR 0xE5, CHR 0xA4, CHR 0xB1, CHR 0xE8, CHR 0xB4, CHR 0xA5, CHR 0xEF, CHR 0xBC, CHR 0x8C, CHR 0xE8, CHR 0xAF, CHR 0xB7, CHR 0xE9, CHR 0x87, CHR 0x8D, CHR 0xE8, CHR 0xAF, CHR 0x95, CHR 0xE6, CHR 0x88, CHR 0x96, CHR 0xE6, CHR 0x9B, CHR 0xB4, CHR 0xE6, CHR 0x96, CHR 0xB0] @ ''Git~''"

definition msg_git_failed :: string where
  "msg_git_failed = [CHR 0x0A, CHR 0xE6, CHR 0x9B, CHR 0xB4, CHR 0xE6, CHR 0x96, CHR 0xB0, CHR 0xE5, CHR 0xA4, CHR 0xB1, CHR 0xE8, CHR 0xB4, CHR 0xA5, CHR 0x0A, CHR 0xE9, CHR 0x94, CHR 0x99, CHR 0xE8, CHR 0xAF, CHR 0xAF, CHR 0xE4, CHR 0xBF, CHR 0xA1, CHR 0xE6, CHR 0x81, CHR 0xAF, CHR 0xEF, CHR 0xBC, CHR 0x9A]"

definition msg_git_retry :: string where
  "msg_git_retry = [CHR 0x0A, CHR 0xE8, CHR 0xAF, CHR 0xB7, CHR 0xE8, CHR 0xA7, CHR 0xA3, CHR 0xE5, CHR 0x86, CHR 0xB3, CHR 0xE9, CHR 0x94, CHR 0x99, CHR 0xE8, CHR 0xAF, CHR 0xAF, CHR 0xE5, CHR 0x90, CHR 0x8E, CHR 0xE9, CHR 0x87, CHR 0x8D, CHR 0xE8, CHR 0xAF, CHR 0x95, CHR 0xE6, CHR 0x88, CHR 0x96, CHR 0xE6, CHR 0x89, CHR 0xA7, CHR 0xE8, CHR 0xA1, CHR 0x8C, CHR 0xE3, CHR 0x80, CHR 0x90] @ ''#'' @ [CHR 0xE5, CHR 0xBC, CHR 0xBA, CHR 0xE5, CHR 0x88, CHR 0xB6, CHR 0xE6, CHR 0x9B, CHR 0xB4, CHR 0xE6, CHR 0x96, CHR 0xB0, CHR 0xE3, CHR 0x80, CHR 0x91]"

definition msg_git_latest :: string where
  "msg_git_latest = [CHR 0x0A, CHR 0xE5, CHR 0xBD, CHR 0x93, CHR 0xE5, CHR 0x89, CHR 0x8D, CHR 0xE7, CHR 0x89, CHR 0x88, CHR 0xE6, CHR 0x9C, CHR 0xAC, CHR 0xE5, CHR 0xB7, CHR 0xB2, CHR 0xE6, CHR 0x98, CHR 0xAF, CHR 0xE6, CHR 0x9C, CHR 0x80, CHR 0xE6, CHR 0x96, CHR 0xB0, CHR 0xE7, CHR 0x89, CHR 0x88, CHR 0xE6, CHR 0x9C, CHR 0xAC, CHR 0x0A, CHR 0xE6, CHR 0x9C, CHR 0x80, CHR 0xE5, CHR 0x90, CHR 0x8E, CHR 0xE6, CHR 0x9B, CHR 0xB4, CHR 0xE6, CHR 0x96, CHR 0xB0, CHR 0xE6, CHR 0x97, CHR 0xB6, CHR 0xE9, CHR 0x97, CHR 0xB4, CHR 0xEF, CHR 0xBC, CHR 0x9A]"

definition msg_git_details :: string where
  "msg_git_details = [CHR 0x0A, CHR 0xE6, CHR 0x9B, CHR 0xB4, CHR 0xE6, CHR 0x96, CHR 0xB0, CHR 0xE8, CHR 0xAF, CHR 0xA6, CHR 0xE6, CHR 0x83, CHR 0x85, CHR 0xEF, CHR 0xBC, CHR 0x9A]"

definition msg_git_ok :: string where
  "msg_git_ok = [CHR 0x0A, CHR 0xE6, CHR 0x9B, CHR 0xB4, CHR 0xE6, CHR 0x96, CHR 0xB0, CHR 0xE6, CHR 0x88, CHR 0x90, CHR 0xE5, CHR 0x8A, CHR 0x9F, CHR 0x0A, CHR 0xE6, CHR 0x9B, CHR 0xB4, CHR 0xE6, CHR 0x96, CHR 0xB0, CHR 0xE6, CHR 0x97, CHR 0xA5, CHR 0xE5, CHR 0xBF, CHR 0x97, CHR 0xEF, CHR 0xBC, CHR 0x9A]"

definition msg_success :: string where
  "msg_success = [CHR 0xE6, CHR 0x88, CHR 0x90, CHR 0xE5, CHR 0x8A, CHR 0x9F]"

section \<open>The external collaborators\<close>

text \<open>
  The command runner resolves to \<open>{status, stdout, stderr, error}\<close>; its error object
  carries a message and, possibly, a stack text.
\<close>

record exec_exception =
  message :: string
  stack :: "string option"

record exec_result =
  status :: bool
  stdout :: string
  stderr :: string
  error :: "exec_exception option"

text \<open>
  What a \<open>throw\<close> can carry: the runner's error object, or \<open>null\<close> when the code rethrows
  the \<open>error\<close> field of a result that has none; an \<open>Error\<close> the code constructs; and the
  errors the engine raises itself.
\<close>

datatype thrown =
    Null
  | Error string
  | TypeError string
  | SyntaxError string
  | ExecException exec_exception

text \<open>The message property of a caught value; reading it from \<open>null\<close> is a type error.\<close>

definition message_of :: "thrown \<Rightarrow> string option" where
  "message_of t =
     (case t of
        Null \<Rightarrow> None
      | Error m \<Rightarrow> Some m
      | TypeError m \<Rightarrow> Some m
      | SyntaxError m \<Rightarrow> Some m
      | ExecException e \<Rightarrow> Some (message e))"



text \<open>The dependency manifest: each of the three maps may be missing from the file.\<close>

record package =
  dependencies :: "(string \<rightharpoonup> string) option"
  devDependencies :: "(string \<rightharpoonup> string) option"
  peerDependencies :: "(string \<rightharpoonup> string) option"

text \<open>
  The manifest is parsed from JSON, so each map is an ordinary object: reading a name from
  it finds the entry the file has under that name or, when the file has none, the member
  of \<open>Object.prototype\<close> of that name. The twelve members are eleven functions and the
  accessor \<open>__proto__\<close>, which gives \<open>Object.prototype\<close> itself. What is read is then
  \<open>undefined\<close>, a string of the file, or one of the members; two members are the same
  object exactly when they have the same name.
\<close>

datatype version = Str string | Member string

definition object_prototype :: "string list" where
  "object_prototype =
     [''constructor'', ''__defineGetter__'', ''__defineSetter__'', ''hasOwnProperty'',
      ''__lookupGetter__'', ''__lookupSetter__'', ''isPrototypeOf'', ''propertyIsEnumerable'',
      ''toString'', ''valueOf'', ''__proto__'', ''toLocaleString'']"

text \<open>The entry the file has: \<open>Object.hasOwn(m, name) ? m[name] : undefined\<close>.\<close>

definition own :: "(string \<rightharpoonup> string) option \<Rightarrow> string \<Rightarrow> string option" where
  "own m name = (case m of None \<Rightarrow> None | Some f \<Rightarrow> f name)"

text \<open>\<open>m?.[name]\<close>\<close>

definition lookup :: "(string \<rightharpoonup> string) option \<Rightarrow> string \<Rightarrow> version option" where
  "lookup m name =
     (case m of
        None \<Rightarrow> None
      | Some f \<Rightarrow>
          (case f name of
             Some v \<Rightarrow> Some (Str v)
           | None \<Rightarrow> if name \<in> set object_prototype then Some (Member name) else None))"

text \<open>
  \<open>a || b\<close> yields \<open>a\<close> when it is truthy and \<open>b\<close> otherwise: a string is truthy when
  it is not empty, a function or an object always. A template string prints a function
  by its source text, in which the function that \<open>constructor\<close> names is called
  \<open>Object\<close>, and an ordinary object as \<open>[object Object]\<close>.
\<close>

definition truthy_version :: "version option \<Rightarrow> bool" where
  "truthy_version v =
     (case v of None \<Rightarrow> False | Some (Str s) \<Rightarrow> s \<noteq> [] | Some (Member n) \<Rightarrow> True)"

definition js_or :: "version option \<Rightarrow> version option \<Rightarrow> version option" where
  "js_or a b = (if truthy_version a then a else b)"

definition show_version :: "version option \<Rightarrow> string" where
  "show_version v =
     (case v of
        None \<Rightarrow> ''undefined''
      | Some (Str s) \<Rightarrow> s
      | Some (Member n) \<Rightarrow>
          if n = ''__proto__'' then ''[object Object]''
          else ''function '' @ (if n = ''constructor'' then ''Object'' else n)
               @ ''() { [native code] }'')"

text \<open>
  The environment of a run: the command runner \<open>exec\<close>, \<open>fs.existsSync\<close>, \<open>requireFile\<close>
  and \<open>getPlugins\<close> act on a world the code does not own, and the regular-expression
  engine answers \<open>new RegExp(pattern, flags).exec(input)?.[1]\<close>: the first capture group
  of the first match, \<open>None\<close> when there is no match, a thrown \<open>SyntaxError\<close> when the
  pattern is not a regular expression. A state is the world together with the commands
  the runner has run so far, each with its working directory, in the order in which it
  ran them: an awaited command when it is answered, a command whose promise is dropped
  when it is given.
\<close>

record 'w env =
  env_exec :: "string \<Rightarrow> string option \<Rightarrow> 'w \<Rightarrow> exec_result \<times> 'w"
  env_existsSync :: "string \<Rightarrow> 'w \<Rightarrow> bool"
  env_requireFile :: "string \<Rightarrow> bool \<Rightarrow> 'w \<Rightarrow> (thrown + package) \<times> 'w"
  env_getPlugins :: "string \<Rightarrow> bool \<Rightarrow> 'w \<Rightarrow> (thrown + string list) \<times> 'w"
  env_regexp :: "string \<Rightarrow> string \<Rightarrow> string \<Rightarrow> thrown + string option"

record 'w state =
  world :: 'w
  trace :: "(string \<times> string option) list"

section \<open>Asynchronous functions\<close>

text \<open>
  An asynchronous function is the tree of its interactions with the environment: it
  returns, throws, or asks the environment for something and goes on with the answer.
  \<open>Exec\<close>, \<open>RequireFile\<close> and \<open>GetPlugins\<close> are awaited; \<open>ExistsSync\<close> and \<open>RegExp\<close> are
  answered at once; \<open>Spawn\<close> is a command given to the runner whose promise is never
  awaited. The logger and the timers of the source are left out: the timer callbacks only
  build a value that nobody reads, and neither changes what a function returns.
\<close>

datatype 'a prog =
    Return 'a
  | Throw thrown
  | Exec string "string option" "exec_result \<Rightarrow> 'a prog"
  | Spawn string "string option" "'a prog"
  | ExistsSync string "bool \<Rightarrow> 'a prog"
  | RegExp string string string "thrown + string option \<Rightarrow> 'a prog"
  | RequireFile string bool "thrown + package \<Rightarrow> 'a prog"
  | GetPlugins string bool "thrown + string list \<Rightarrow> 'a prog"

text \<open>\<open>const x = await p; f x\<close>\<close>

primrec await :: "'a prog \<Rightarrow> ('a \<Rightarrow> 'b prog) \<Rightarrow> 'b prog" where
  "await (Return x) f = f x"
| "await (Throw t) f = Throw t"
| "await (Exec c d k) f = Exec c d (\<lambda>r. await (k r) f)"
| "await (Spawn c d k) f = Spawn c d (await k f)"
| "await (ExistsSync p k) f = ExistsSync p (\<lambda>b. await (k b) f)"
| "await (RegExp p g i k) f = RegExp p g i (\<lambda>r. await (k r) f)"
| "await (RequireFile p b k) f = RequireFile p b (\<lambda>r. await (k r) f)"
| "await (GetPlugins p b k) f = GetPlugins p b (\<lambda>r. await (k r) f)"

text \<open>\<open>try { p } catch (error) { h error }\<close>\<close>

primrec try_catch :: "'a prog \<Rightarrow> (thrown \<Rightarrow> 'a prog) \<Rightarrow> 'a prog" where
  "try_catch (Return x) h = Return x"
| "try_catch (Throw t) h = h t"
| "try_catch (Exec c d k) h = Exec c d (\<lambda>r. try_catch (k r) h)"
| "try_catch (Spawn c d k) h = Spawn c d (try_catch k h)"
| "try_catch (ExistsSync p k) h = ExistsSync p (\<lambda>b. try_catch (k b) h)"
| "try_catch (RegExp p g i k) h = RegExp p g i (\<lambda>r. try_catch (k r) h)"
| "try_catch (RequireFile p b k) h = RequireFile p b (\<lambda>r. try_catch (k r) h)"
| "try_catch (GetPlugins p b k) h = GetPlugins p b (\<lambda>r. try_catch (k r) h)"

text \<open>
  A call whose promise is dropped: the callee runs up to its first awaited request, which
  is given to the environment, and the caller goes on without the answer. The only call
  of this kind in the source is the one of \<open>getCommit\<close> in \<open>updateGitPlugin\<close>, whose
  first request is a command; for a callee that first asks for a file or for the plugin
  registry the equations below still ask, and drop the answer.
\<close>

primrec detach :: "'b prog \<Rightarrow> 'a prog \<Rightarrow> 'a prog" where
  "detach (Return x) rest = rest"
| "detach (Throw t) rest = rest"
| "detach (Exec c d k) rest = Spawn c d rest"
| "detach (Spawn c d k) rest = Spawn c d (detach k rest)"
| "detach (ExistsSync p k) rest = ExistsSync p (\<lambda>b. detach (k b) rest)"
| "detach (RegExp p g i k) rest = RegExp p g i (\<lambda>r. detach (k r) rest)"
| "detach (RequireFile p b k) rest = RequireFile p b (\<lambda>r. rest)"
| "detach (GetPlugins p b k) rest = GetPlugins p b (\<lambda>r. rest)"

definition exec :: "string \<Rightarrow> string option \<Rightarrow> exec_result prog" where
  "exec cmd cwd = Exec cmd cwd Return"

definition rethrow :: "thrown + 'a \<Rightarrow> 'a prog" where
  "rethrow r = (case r of Inl t \<Rightarrow> Throw t | Inr x \<Rightarrow> Return x)"

definition regexp_exec :: "string \<Rightarrow> string \<Rightarrow> string \<Rightarrow> string option prog" where
  "regexp_exec pattern flags input = RegExp pattern flags input rethrow"

definition requireFile :: "string \<Rightarrow> bool \<Rightarrow> package prog" where
  "requireFile file force = RequireFile file force rethrow"

definition getPlugins :: "string \<Rightarrow> bool \<Rightarrow> string list prog" where
  "getPlugins kind flag = GetPlugins kind flag rethrow"

subsection \<open>Running one function to its end\<close>

definition do_exec :: "'w env \<Rightarrow> string \<Rightarrow> string option \<Rightarrow> 'w state \<Rightarrow> exec_result \<times> 'w state" where
  "do_exec E c d s =
     (case env_exec E c d (world s) of
        (r, w) \<Rightarrow> (r, \<lparr>world = w, trace = trace s @ [(c, d)]\<rparr>))"

definition do_requireFile :: "'w env \<Rightarrow> string \<Rightarrow> bool \<Rightarrow> 'w state \<Rightarrow> (thrown + package) \<times> 'w state" where
  "do_requireFile E p b s =
     (case env_requireFile E p b (world s) of (r, w) \<Rightarrow> (r, s\<lparr>world := w\<rparr>))"

definition do_getPlugins :: "'w env \<Rightarrow> string \<Rightarrow> bool \<Rightarrow> 'w state \<Rightarrow> (thrown + string list) \<times> 'w state" where
  "do_getPlugins E p b s =
     (case env_getPlugins E p b (world s) of (r, w) \<Rightarrow> (r, s\<lparr>world := w\<rparr>))"

primrec run :: "'w env \<Rightarrow> 'a prog \<Rightarrow> 'w state \<Rightarrow> (thrown + 'a) \<times> 'w state" where
  "run E (Return x) s = (Inr x, s)"
| "run E (Throw t) s = (Inl t, s)"
| "run E (Exec c d k) s = (case do_exec E c d s of (r, s') \<Rightarrow> run E (k r) s')"
| "run E (Spawn c d k) s = (case do_exec E c d s of (r, s') \<Rightarrow> run E k s')"
| "run E (ExistsSync p k) s = run E (k (env_existsSync E p (world s))) s"
| "run E (RegExp p g i k) s = run E (k (env_regexp E p g i)) s"
| "run E (RequireFile p b k) s = (case do_requireFile E p b s of (r, s') \<Rightarrow> run E (k r) s')"
| "run E (GetPlugins p b k) s = (case do_getPlugins E p b s of (r, s') \<Rightarrow> run E (k r) s')"

section \<open>The git inspector\<close>

record commit_options =
  opt_path :: string
  opt_count :: "nat option"
  opt_hash :: "string option"
  opt_branch :: "string option"

definition getCommit :: "commit_options \<Rightarrow> string prog" where
  \<open>getCommit options =
     (let path = opt_path options;
          count = (case opt_count options of None \<Rightarrow> 1 | Some n \<Rightarrow> n);
          hash = opt_hash options;
          branch = opt_branch options;
          cmd0 = ''git log -'' @ show_nat count
                 @ '' --format="[%ad]%s %n" --date="format:%m-%d %H:%M"'';
          cmd1 = (if truthy hash
                  then ''git log '' @ show_opt hash
                       @ ''..HEAD --format="[%ad] %s %n" --date="format:%m-%d %H:%M"''
                  else cmd0);
          cmd2 = (if truthy branch
                  then ''git log -'' @ show_nat count @ '' '' @ show_opt branch
                       @ '' --format="[%ad] %s %n" --date="format:%m-%d %H:%M"''
                  else cmd1)
      in await (exec cmd2 (Some path))
           (\<lambda>r. case error r of
                   Some e \<Rightarrow> Throw (ExecException e)
                 | None \<Rightarrow> Return (stdout r)))\<close>

definition getHash :: "string \<Rightarrow> bool \<Rightarrow> string prog" where
  "getHash filePath short =
     (let cmd = (if short then ''git rev-parse --short HEAD'' else ''git rev-parse HEAD'')
      in await (exec cmd (Some filePath))
           (\<lambda>r. case error r of
                   Some e \<Rightarrow> Throw (ExecException e)
                 | None \<Rightarrow> Return (stdout r)))"

definition getTime :: "string \<Rightarrow> string prog" where
  \<open>getTime filePath =
     (let cmd = ''git log -1 --format=%cd --date=format:"%Y-%m-%d %H:%M:%S"''
      in await (exec cmd (Some filePath))
           (\<lambda>r. case error r of
                   Some e \<Rightarrow> Return msg_time_failed
                 | None \<Rightarrow> Return (stdout r)))\<close>

datatype check_git_result =
    Git_yes string nat
  | Git_no string
  | Git_error thrown

definition check_git_status :: "check_git_result \<Rightarrow> string" where
  "check_git_status r =
     (case r of Git_yes d n \<Rightarrow> ''yes'' | Git_no d \<Rightarrow> ''no'' | Git_error e \<Rightarrow> ''error'')"

definition behind_pattern :: string where
  "behind_pattern =
     ''Your branch is behind '' @ [CHR 0x27] @ ''.*'' @ [CHR 0x27]
     @ '' by ('' @ [CHR 0x5C] @ ''d+) commits''"

text \<open>\<open>Number(m) || 1\<close>: NaN and zero both give one.\<close>

definition number_or_1 :: "string option \<Rightarrow> nat" where
  "number_or_1 m = (case Number m of None \<Rightarrow> 1 | Some n \<Rightarrow> if n = 0 then 1 else n)"

definition checkGitPluginUpdate :: "string \<Rightarrow> nat \<Rightarrow> check_git_result prog" where
  "checkGitPluginUpdate filePath time =
     try_catch
       (ExistsSync filePath (\<lambda>found.
          if \<not> found then Return (Git_error (Error msg_no_path))
          else ExistsSync (filePath @ ''/.git'') (\<lambda>found_git.
            if \<not> found_git then Return (Git_error (Error msg_not_git))
            else await (exec ''git fetch origin'' (Some filePath)) (\<lambda>fetched.
              case error fetched of
                Some e \<Rightarrow> Return (Git_error (ExecException e))
              | None \<Rightarrow>
                  await (exec ''git status -uno'' (Some filePath)) (\<lambda>r.
                    if str_includes (stdout r) ''Your branch is up to date with''
                    then await (getTime filePath) (\<lambda>time.
                           Return (Git_no (msg_latest @ time)))
                    else await (regexp_exec behind_pattern [] (stdout r)) (\<lambda>m.
                           let count = number_or_1 m
                           in await (getCommit \<lparr>opt_path = filePath, opt_count = Some count,
                                                opt_hash = None, opt_branch = Some ''origin''\<rparr>)
                                (\<lambda>data. Return (Git_yes data count))))))))
       (\<lambda>error. Return (Git_error error))"

section \<open>The version resolver\<close>

definition getPkg :: "bool \<Rightarrow> package prog" where
  "getPkg isForcibly = requireFile ''package.json'' isForcibly"

definition not_installed :: "string \<Rightarrow> thrown" where
  "not_installed name = Error (msg_get_failed @ name @ msg_not_installed)"

text \<open>\<open>error?.stack?.toString().includes(marker)\<close>\<close>

definition stack_includes :: "exec_exception \<Rightarrow> string \<Rightarrow> bool" where
  "stack_includes e marker = (case stack e of None \<Rightarrow> False | Some t \<Rightarrow> str_includes t marker)"

definition version_pattern :: "string \<Rightarrow> string" where
  "version_pattern name =
     name @ ''@('' @ [CHR 0x5C] @ ''d+'' @ [CHR 0x5C] @ ''.'' @ [CHR 0x5C] @ ''d+''
     @ [CHR 0x5C] @ ''.'' @ [CHR 0x5C] @ ''d+)''"

definition getPkgVersion :: "string \<Rightarrow> version option prog" where
  "getPkgVersion name =
     await (exec (''npm list '' @ name @ '' --depth=0'') None) (\<lambda>r.
       let rest =
             (case error r of
                Some e \<Rightarrow>
                  if stack_includes e ''empty'' \<or> stack_includes e ''extraneous''
                  then Throw (not_installed name)
                  else Throw (ExecException e)
              | None \<Rightarrow>
                  await (getPkg False) (\<lambda>pkg.
                    Return (js_or (js_or (lookup (dependencies pkg) name)
                                         (lookup (devDependencies pkg) name))
                                  (lookup (peerDependencies pkg) name))))
       in if stdout r \<noteq> []
          then (let data = stdout r
                in if str_includes data ''empty'' \<or> str_includes data ''extraneous''
                   then Throw (not_installed name)
                   else await (regexp_exec (version_pattern name) ''gm'' data) (\<lambda>result.
                          if truthy result then Return (map_option Str result) else rest))
          else rest)"

definition getRemotePkgVersion :: "string \<Rightarrow> string \<Rightarrow> string prog" where
  "getRemotePkgVersion name tag =
     (let cmd = (if tag = ''latest'' then ''npm show '' @ name @ '' version''
                 else ''npm show '' @ name @ '' dist-tags.'' @ tag)
      in await (exec cmd None) (\<lambda>r.
           if \<not> status r
           then (case error r of
                   Some e \<Rightarrow>
                     if stack_includes e ''empty'' \<or> stack_includes e ''extraneous''
                     then Throw (not_installed name)
                     else Throw (ExecException e)
                 | None \<Rightarrow> Throw Null)
           else Return (trim (stdout r))))"

datatype check_result =
    Check_yes "version option" string
  | Check_no "version option"
  | Check_error thrown

definition check_status :: "check_result \<Rightarrow> string" where
  "check_status r =
     (case r of Check_yes local remote \<Rightarrow> ''yes'' | Check_no local \<Rightarrow> ''no''
      | Check_error e \<Rightarrow> ''error'')"

definition checkPkgUpdate :: "string \<Rightarrow> check_result prog" where
  "checkPkgUpdate name =
     try_catch
       (await (getPkgVersion name) (\<lambda>local.
          await (getRemotePkgVersion name ''latest'') (\<lambda>remote.
            if local = Some (Str remote) then Return (Check_no local)
            else Return (Check_yes local remote))))
       (\<lambda>error. Return (Check_error error))"

section \<open>The update orchestrator for packages\<close>

text \<open>The \<open>data\<close> field of a failure is a text or the caught value.\<close>

datatype data = Text string | Caught thrown

datatype update_result =
    Failed data
  | Ok string "version option" string

definition update_status :: "update_result \<Rightarrow> string" where
  "update_status r = (case r of Failed d \<Rightarrow> ''failed'' | Ok d local remote \<Rightarrow> ''ok'')"

definition no_update_line :: "string \<Rightarrow> version option \<Rightarrow> version option \<Rightarrow> string" where
  "no_update_line name local remote =
     ''['' @ name @ ''][''  @ msg_no_update @ ''] '' @ show_version local @ '' => '' @ show_version remote"

definition manual_hint_line :: "string \<Rightarrow> version option \<Rightarrow> string" where
  "manual_hint_line name remote =
     ''['' @ name @ ''][''  @ msg_update_failed @ '']'' @ msg_try_manual
     @ name @ ''@'' @ show_version remote"

definition updated_line :: "string \<Rightarrow> version option \<Rightarrow> version option \<Rightarrow> string" where
  "updated_line name local remote =
     ''['' @ name @ ''][''  @ msg_update_ok @ ''] '' @ show_version local @ '' => '' @ show_version remote"

definition updatePkg :: "string \<Rightarrow> string \<Rightarrow> update_result prog" where
  "updatePkg name tag =
     try_catch
       (await (getPkgVersion name) (\<lambda>local.
          await (getRemotePkgVersion name tag) (\<lambda>remote.
            if local = Some (Str remote)
            then Return (Failed (Text (no_update_line name local (Some (Str remote)))))
            else (let shell = ''pnpm up '' @ name @ ''@'' @ remote
                  in await (exec shell None) (\<lambda>r.
                       case error r of
                         Some e \<Rightarrow> Return (Failed (Caught (ExecException e)))
                       | None \<Rightarrow>
                           await (getPkgVersion name) (\<lambda>updatedVersion.
                             if updatedVersion \<noteq> Some (Str remote)
                             then Return (Failed (Text (manual_hint_line name (Some (Str remote)))))
                             else Return (Ok (updated_line name local (Some (Str remote)))
                                             local remote)))))))
       (\<lambda>error. Return (Failed (Caught error)))"

section \<open>The update orchestrator for git plugins\<close>

datatype update_git_result =
    Git_failed data
  | Git_ok string string


text \<open>\<open>error?.stack || error?.message\<close>\<close>

definition stack_or_message :: "exec_exception \<Rightarrow> string" where
  "stack_or_message e = (if truthy (stack e) then show_opt (stack e) else message e)"

text \<open>
  The success text interpolates the promise of a second, unawaited \<open>getCommit\<close> call, so
  it ends in the text of a promise object and the call's command is only started.
\<close>

definition updateGitPlugin :: "string \<Rightarrow> string \<Rightarrow> nat \<Rightarrow> update_git_result prog" where
  "updateGitPlugin filePath cmd time =
     try_catch
       (ExistsSync filePath (\<lambda>found.
          if \<not> found then Return (Git_failed (Text msg_no_path))
          else ExistsSync (filePath @ ''/.git'') (\<lambda>found_git.
            if \<not> found_git then Return (Git_failed (Text msg_not_git))
            else await (getHash filePath True) (\<lambda>hash.
              let cmd = (if cmd = [] then ''git pull'' else cmd)
              in await (exec cmd (Some filePath)) (\<lambda>r.
                   case error r of
                     Some e \<Rightarrow>
                       Return (Git_failed (Text (msg_git_failed @ stack_or_message e
                                                 @ msg_git_retry)))
                   | None \<Rightarrow>
                       await (getHash filePath True) (\<lambda>updatedHash.
                         let one = \<lparr>opt_path = filePath, opt_count = Some 1,
                                    opt_hash = None, opt_branch = None\<rparr>
                         in if hash = updatedHash
                            then await (getCommit one) (\<lambda>commit.
                                   Return (Git_failed (Text (msg_git_latest @ show_nat time
                                                             @ msg_git_details @ commit))))
                            else await (getCommit one) (\<lambda>commit.
                                   detach (getCommit one)
                                     (Return (Git_ok (msg_git_ok @ ''[object Promise]'')
                                                     commit)))))))))
       (\<lambda>error. Return (Git_failed (Caught error)))"

section \<open>Concurrent tasks\<close>

text \<open>
  \<open>list.map(async (name) => ...)\<close> starts one task per element, in listing order: each
  runs up to its first awaited request. From then on the tasks advance one awaited request
  at a time, in the order in which the environment answers. That order is not the code's
  to choose: a schedule, a list of numbers, picks the task whose request is answered
  next, entry \<open>n\<close> picking the task at position \<open>n mod k\<close> among the \<open>k\<close> tasks still
  waiting. A task that settles without awaiting any request settles before every task
  that awaits one. A schedule that ends while tasks are waiting describes a run in which
  the aggregate promise is still pending: \<open>None\<close>.
\<close>

fun outcome :: "'a prog \<Rightarrow> (thrown + 'a) option" where
  "outcome (Return x) = Some (Inr x)"
| "outcome (Throw t) = Some (Inl t)"
| "outcome p = None"

primrec advance :: "'w env \<Rightarrow> 'a prog \<Rightarrow> 'w state \<Rightarrow> 'a prog \<times> 'w state" where
  "advance E (Return x) s = (Return x, s)"
| "advance E (Throw t) s = (Throw t, s)"
| "advance E (Exec c d k) s = (Exec c d k, s)"
| "advance E (Spawn c d k) s = (case do_exec E c d s of (r, s') \<Rightarrow> advance E k s')"
| "advance E (ExistsSync p k) s = advance E (k (env_existsSync E p (world s))) s"
| "advance E (RegExp p g i k) s = advance E (k (env_regexp E p g i)) s"
| "advance E (RequireFile p b k) s = (RequireFile p b k, s)"
| "advance E (GetPlugins p b k) s = (GetPlugins p b k, s)"

definition resume :: "'w env \<Rightarrow> 'a prog \<Rightarrow> 'w state \<Rightarrow> 'a prog \<times> 'w state" where
  "resume E p s =
     (case p of
        Exec c d k \<Rightarrow> (case do_exec E c d s of (r, s') \<Rightarrow> advance E (k r) s')
      | RequireFile f b k \<Rightarrow> (case do_requireFile E f b s of (r, s') \<Rightarrow> advance E (k r) s')
      | GetPlugins f b k \<Rightarrow> (case do_getPlugins E f b s of (r, s') \<Rightarrow> advance E (k r) s')
      | _ \<Rightarrow> (p, s))"

fun start_all :: "'w env \<Rightarrow> 'a prog list \<Rightarrow> 'w state \<Rightarrow> 'a prog list \<times> 'w state" where
  "start_all E [] s = ([], s)"
| "start_all E (p # ps) s =
     (case advance E p s of
        (q, s') \<Rightarrow> (case start_all E ps s' of (qs, s'') \<Rightarrow> (q # qs, s'')))"

text \<open>The tasks still waiting and the tasks settled, each with its position in the list.\<close>

definition waiting :: "'a prog list \<Rightarrow> (nat \<times> 'a prog) list" where
  "waiting qs = filter (\<lambda>(i, q). outcome q = None) (enumerate 0 qs)"

definition settled :: "'a prog list \<Rightarrow> (nat \<times> (thrown + 'a)) list" where
  "settled qs = List.map_filter (\<lambda>(i, q). map_option (Pair i) (outcome q)) (enumerate 0 qs)"

fun settle ::
  "'w env \<Rightarrow> bool \<Rightarrow> nat list \<Rightarrow> (nat \<times> 'a prog) list \<Rightarrow> (nat \<times> (thrown + 'a)) list
   \<Rightarrow> 'w state \<Rightarrow> ((nat \<times> (thrown + 'a)) list \<times> 'w state) option" where
  "settle E fail_fast sched [] done s = Some (done, s)"
| "settle E fail_fast [] (p # ps) done s = None"
| "settle E fail_fast (n # sched) (p # ps) done s =
     (let i = n mod length (p # ps)
      in case (p # ps) ! i of
           (j, q) \<Rightarrow>
             (case resume E q s of
                (q', s') \<Rightarrow>
                  (case outcome q' of
                     None \<Rightarrow> settle E fail_fast sched ((p # ps)[i := (j, q')]) done s'
                   | Some r \<Rightarrow>
                       if fail_fast \<and> isl r then Some (done @ [(j, r)], s')
                       else settle E fail_fast sched
                              (take i (p # ps) @ drop (Suc i) (p # ps)) (done @ [(j, r)]) s')))"


text \<open>
  \<open>Promise.all\<close> rejects with the first rejection and is fulfilled when every task is. The
  code under study ignores the array of values: what it observes is the pushes the tasks
  make when they finish, so the values are kept in that order.
\<close>

fun collect :: "(nat \<times> (thrown + 'a)) list \<Rightarrow> thrown + 'a list" where
  "collect [] = Inr []"
| "collect ((j, Inl t) # rest) = Inl t"
| "collect ((j, Inr v) # rest) = (case collect rest of Inl t \<Rightarrow> Inl t | Inr vs \<Rightarrow> Inr (v # vs))"

definition promise_all ::
  "'w env \<Rightarrow> nat list \<Rightarrow> 'a prog list \<Rightarrow> 'w state \<Rightarrow> ((thrown + 'a list) \<times> 'w state) option" where
  "promise_all E sched ps s =
     (case start_all E ps s of
        (qs, s') \<Rightarrow>
          (case collect (settled qs) of
             Inl t \<Rightarrow> Some (Inl t, s')
           | Inr vs \<Rightarrow>
               (case settle E True sched (waiting qs) (settled qs) s' of
                  None \<Rightarrow> None
                | Some (done, s'') \<Rightarrow> Some (collect done, s''))))"

text \<open>
  The handler of the batch functions, \<open>(error as Error).message || fallback\<close>: reading the
  message of \<open>null\<close> throws in turn.
\<close>

definition report_error :: "thrown \<Rightarrow> thrown + string" where
  "report_error t =
     (case message_of t of
        None \<Rightarrow> Inl (TypeError (''Cannot read properties of null (reading ''
                                 @ [CHR 0x27] @ ''message'' @ [CHR 0x27] @ '')''))
      | Some m \<Rightarrow> Inr (if m = [] then msg_see_log else m))"







section \<open>The batch update of packages\<close>

subsection \<open>Objects as ordered tables\<close>

text \<open>
  \<open>state[name] = v\<close> on a plain object keeps the place of a key it already has and puts a
  new key last; \<open>Object.keys\<close> lists the keys that are array indices first, in ascending
  order, then the others in the order of their creation.
\<close>

fun set_entry :: "string \<Rightarrow> 'v \<Rightarrow> (string \<times> 'v) list \<Rightarrow> (string \<times> 'v) list" where
  "set_entry k v [] = [(k, v)]"
| "set_entry k v ((k', v') # rest) =
     (if k = k' then (k, v) # rest else (k', v') # set_entry k v rest)"

definition array_index :: "string \<Rightarrow> nat option" where
  "array_index k =
     (case digits_val 0 k of
        None \<Rightarrow> None
      | Some n \<Rightarrow> if k \<noteq> [] \<and> show_nat n = k \<and> n < 4294967295 then Some n else None)"

definition index_or_0 :: "string \<Rightarrow> nat" where
  "index_or_0 k = (case array_index k of None \<Rightarrow> 0 | Some n \<Rightarrow> n)"

definition object_entries :: "(string \<times> 'v) list \<Rightarrow> (string \<times> 'v) list" where
  "object_entries obj =
     sort_key (\<lambda>(k, v). index_or_0 k) (filter (\<lambda>(k, v). array_index k \<noteq> None) obj)
     @ filter (\<lambda>(k, v). array_index k = None) obj"

subsection \<open>Sorting an array with a comparator\<close>

text \<open>
  \<open>Array.prototype.sort\<close> leaves the order open when the comparator is not a consistent
  ordering, and the comparator of the report, which looks at its first argument only, is
  not. What the program does is then what its engine does. The program runs on Node,
  whose engine sorts an array of fewer than 64 elements as a single run: it takes the
  longest initial run, ascending or strictly descending, reverses it when it descends, and
  places each later element by binary insertion, comparing the element to be placed
  against the elements already in place. The model covers arrays of that size.
\<close>

fun run_length :: "('a \<Rightarrow> 'a \<Rightarrow> int) \<Rightarrow> bool \<Rightarrow> 'a \<Rightarrow> 'a list \<Rightarrow> nat" where
  "run_length cmp descending previous [] = 0"
| "run_length cmp descending previous (x # xs) =
     (let order = cmp x previous
      in if (if descending then order < 0 else order \<ge> 0)
         then Suc (run_length cmp descending x xs) else 0)"

definition count_and_make_run :: "('a \<Rightarrow> 'a \<Rightarrow> int) \<Rightarrow> 'a list \<Rightarrow> 'a list \<times> 'a list" where
  "count_and_make_run cmp xs =
     (case xs of
        low # high # rest \<Rightarrow>
          (let descending = cmp high low < 0;
               n = 2 + run_length cmp descending high rest
           in (if descending then rev (take n xs) else take n xs, drop n xs))
      | _ \<Rightarrow> (xs, []))"

function binary_search :: "('a \<Rightarrow> 'a \<Rightarrow> int) \<Rightarrow> 'a \<Rightarrow> 'a list \<Rightarrow> nat \<Rightarrow> nat \<Rightarrow> nat" where
  "binary_search cmp pivot xs left right =
     (if left < right
      then (let mid = left + (right - left) div 2
            in if cmp pivot (xs ! mid) < 0
               then binary_search cmp pivot xs left mid
               else binary_search cmp pivot xs (mid + 1) right)
      else left)"
  by pat_completeness auto
termination
  by (relation "measure (\<lambda>(cmp, pivot, xs, left, right). right - left)") auto

declare binary_search.simps [simp del]

definition binary_insert :: "('a \<Rightarrow> 'a \<Rightarrow> int) \<Rightarrow> 'a list \<Rightarrow> 'a \<Rightarrow> 'a list" where
  "binary_insert cmp placed pivot =
     (let left = binary_search cmp pivot placed 0 (length placed)
      in take left placed @ pivot # drop left placed)"

definition array_sort :: "('a \<Rightarrow> 'a \<Rightarrow> int) \<Rightarrow> 'a list \<Rightarrow> 'a list" where
  "array_sort cmp xs =
     (if length xs < 2 then xs
      else case count_and_make_run cmp xs of
             (first_run, rest) \<Rightarrow> foldl (binary_insert cmp) first_run rest)"

text \<open>\<open>(a) => a.includes(success) ? -1 : 1\<close>, called with two arguments.\<close>

definition success_first :: "string \<Rightarrow> string \<Rightarrow> int" where
  "success_first a b = (if str_includes a msg_success then - 1 else 1)"

subsection \<open>The batch\<close>

text \<open>
  The callback of the resolution phase awaits the two versions of one package and then,
  without awaiting anything more, pushes to \<open>cmd\<close> and writes to \<open>state\<close>. A task is
  the part that awaits, its value what it resolved; \<open>updateAllPkg_commit\<close> is the part
  that writes, applied when the task finishes. \<open>state\<close> is an ordinary object, and the
  value written is an object: under the name \<open>__proto__\<close> the assignment calls the setter
  of \<open>Object.prototype\<close>, which replaces the prototype of \<open>state\<close> and adds no key.
\<close>

record probe =
  probe_name :: string
  probe_local :: "version option"
  probe_remote :: "version option"

definition updateAllPkg_probe :: "package \<Rightarrow> string \<Rightarrow> probe prog" where
  "updateAllPkg_probe pkg name =
     (let name = replace name ''npm:'' []
      in await (getPkgVersion name) (\<lambda>local.
           await (getRemotePkgVersion name ''latest'') (\<lambda>fetched.
             await (if fetched \<noteq> [] then Return (Some (Str fetched))
                    else case dependencies pkg of
                           None \<Rightarrow>
                             Throw (TypeError (''Cannot read properties of undefined (reading ''
                                               @ [CHR 0x27] @ name @ [CHR 0x27] @ '')''))
                         | Some deps \<Rightarrow> Return (lookup (Some deps) name))
               (\<lambda>remote.
                  Return \<lparr>probe_name = name, probe_local = local, probe_remote = remote\<rparr>))))"

record plan =
  plan_cmd :: "string list"
  plan_state :: "(string \<times> version option \<times> version option) list"

definition updateAllPkg_commit :: "plan \<Rightarrow> probe \<Rightarrow> plan" where
  "updateAllPkg_commit pl p =
     (if probe_local p = probe_remote p then pl
      else \<lparr>plan_cmd = plan_cmd pl @ [probe_name p @ ''@'' @ show_version (probe_remote p)],
            plan_state =
              (if probe_name p = ''__proto__'' then plan_state pl
               else set_entry (probe_name p) (probe_local p, probe_remote p) (plan_state pl))\<rparr>)"

definition updateAllPkg_failed :: "plan \<Rightarrow> string list" where
  "updateAllPkg_failed pl =
     map (\<lambda>(name, local, remote). manual_hint_line name remote) (object_entries (plan_state pl))"

definition updateAllPkg_verified :: "plan \<Rightarrow> package \<Rightarrow> string list" where
  "updateAllPkg_verified pl updatedPkg =
     map (\<lambda>(name, local, remote).
            let updatedVersion = js_or (js_or (lookup (dependencies updatedPkg) name)
                                              (lookup (devDependencies updatedPkg) name))
                                       (lookup (peerDependencies updatedPkg) name)
            in if updatedVersion \<noteq> remote then manual_hint_line name remote
               else updated_line name local remote)
         (object_entries (plan_state pl))"

definition updateAllPkg_finish :: "plan \<Rightarrow> string prog" where
  "updateAllPkg_finish pl =
     (if length (plan_cmd pl) = 1 then Return msg_nothing_to_update
      else (let shell = join (plan_cmd pl) '' ''
            in await (exec shell None) (\<lambda>r.
                 case error r of
                   Some e \<Rightarrow>
                     (let result = updateAllPkg_failed pl
                      in Return (join ((msg_failed_count @ show_nat (length result)) # result)
                                      [CHR 0x0A]))
                 | None \<Rightarrow>
                     await (getPkg True) (\<lambda>updatedPkg.
                       Return (join (array_sort success_first
                                       (updateAllPkg_verified pl updatedPkg))
                                    [CHR 0x0A])))))"

definition updateAllPkg_list :: "(string list \<times> package) prog" where
  "updateAllPkg_list =
     await (getPlugins ''npm'' False) (\<lambda>list.
       await (getPkg False) (\<lambda>pkg. Return (list @ [''node-karin''], pkg)))"

definition caught :: "(thrown + string) \<times> 'w state \<Rightarrow> (thrown + string) \<times> 'w state" where
  "caught r = (case r of (Inl t, s) \<Rightarrow> (report_error t, s) | (Inr x, s) \<Rightarrow> (Inr x, s))"

definition updateAllPkg ::
  "'w env \<Rightarrow> nat list \<Rightarrow> 'w state \<Rightarrow> ((thrown + string) \<times> 'w state) option" where
  "updateAllPkg E sched s =
     (case run E updateAllPkg_list s of
        (Inl t, s1) \<Rightarrow> Some (report_error t, s1)
      | (Inr (list, pkg), s1) \<Rightarrow>
          (case promise_all E sched (map (updateAllPkg_probe pkg) list) s1 of
             None \<Rightarrow> None
           | Some (Inl t, s2) \<Rightarrow> Some (report_error t, s2)
           | Some (Inr probes, s2) \<Rightarrow>
               Some (caught (run E (updateAllPkg_finish
                                      (foldl updateAllPkg_commit
                                         \<lparr>plan_cmd = [''pnpm up''], plan_state = []\<rparr> probes))
                                   s2))))"

section \<open>Concrete environments\<close>

text \<open>Small worlds on which the functions are run.\<close>

definition ok_result :: "string \<Rightarrow> exec_result" where
  "ok_result out = \<lparr>status = True, stdout = out, stderr = [], error = None\<rparr>"

definition failed_result :: "string \<Rightarrow> exec_result" where
  "failed_result msg =
     \<lparr>status = False, stdout = [], stderr = msg,
      error = Some \<lparr>message = msg, stack = Some (''Error: '' @ msg)\<rparr>\<rparr>"

definition start :: "'w \<Rightarrow> 'w state" where
  "start w = \<lparr>world = w, trace = []\<rparr>"

text \<open>A world in which every command succeeds and prints nothing.\<close>

definition quiet_env :: "unit env" where
  "quiet_env =
     \<lparr>env_exec = (\<lambda>c d w. (ok_result [], w)),
      env_existsSync = (\<lambda>p w. False),
      env_requireFile = (\<lambda>p b w. (Inl (Error ''no such file''), w)),
      env_getPlugins = (\<lambda>k b w. (Inr [], w)),
      env_regexp = (\<lambda>p g i. Inr None)\<rparr>"

text \<open>
  A regular-expression engine for the worlds below: it answers the version pattern of the
  package names that occur in them, whose characters all stand for themselves.
\<close>

definition digits_prefix :: "string \<Rightarrow> string" where
  "digits_prefix s = takeWhile (\<lambda>c. digit_val c \<noteq> None) s"

definition dotted :: "string \<Rightarrow> string option" where
  "dotted s = (case s of c # rest \<Rightarrow> if c = CHR ''.'' then Some rest else None | [] \<Rightarrow> None)"

definition version_prefix :: "string \<Rightarrow> string option" where
  "version_prefix s =
     (let major = digits_prefix s
      in case dotted (drop (length major) s) of
           None \<Rightarrow> None
         | Some s1 \<Rightarrow>
             (let minor = digits_prefix s1
              in case dotted (drop (length minor) s1) of
                   None \<Rightarrow> None
                 | Some s2 \<Rightarrow>
                     (let patch = digits_prefix s2
                      in if major = [] \<or> minor = [] \<or> patch = [] then None
                         else Some (major @ ''.'' @ minor @ ''.'' @ patch))))"

fun find_version :: "string \<Rightarrow> string \<Rightarrow> string option" where
  "find_version lit [] = None"
| "find_version lit (c # cs) =
     (case (if prefix lit (c # cs) then version_prefix (drop (length lit) (c # cs)) else None) of
        Some v \<Rightarrow> Some v
      | None \<Rightarrow> find_version lit cs)"

definition npm_regexp :: "string \<Rightarrow> string \<Rightarrow> string \<Rightarrow> thrown + string option" where
  "npm_regexp pattern flags input =
     (if pattern = version_pattern ''foo'' then Inr (find_version ''foo@'' input)
      else if pattern = version_pattern ''pin'' then Inr (find_version ''pin@'' input)
      else if pattern = version_pattern ''cur'' then Inr (find_version ''cur@'' input)
      else if pattern = version_pattern ''bar'' then Inr (find_version ''bar@'' input)
      else if pattern = version_pattern ''gone'' then Inr (find_version ''gone@'' input)
      else if pattern = version_pattern ''node-karin''
      then Inr (find_version ''node-karin@'' input)
      else Inr None)"

text \<open>
  A project with six packages. The world is the installed version of \<open>foo\<close>, which
  \<open>pnpm up foo@1.2.0\<close> changes; \<open>pin\<close> stays at 2.0.0 whatever is asked; \<open>cur\<close> is
  current; the listing of \<open>bar\<close> names no version; \<open>gone\<close> is listed as \<open>(empty)\<close>;
  and the listing of the package named \<open>constructor\<close> names no version either.
\<close>

definition listing :: "string \<Rightarrow> string" where
  "listing entry = ''app@1.0.0 /srv/app'' @ [CHR 0x0A] @ ''`-- '' @ entry @ [CHR 0x0A]"

definition npm_exec :: "string \<Rightarrow> string option \<Rightarrow> string \<Rightarrow> exec_result \<times> string" where
  "npm_exec c d w =
     (if c = ''npm list foo --depth=0'' then (ok_result (listing (''foo@'' @ w)), w)
      else if c = ''npm show foo version'' then (ok_result (''1.2.0'' @ [CHR 0x0A]), w)
      else if c = ''pnpm up foo@1.2.0'' then (ok_result [], ''1.2.0'')
      else if c = ''npm list pin --depth=0'' then (ok_result (listing ''pin@2.0.0''), w)
      else if c = ''npm show pin version'' then (ok_result (''3.0.0'' @ [CHR 0x0A]), w)
      else if c = ''pnpm up pin@3.0.0'' then (ok_result [], w)
      else if c = ''npm list cur --depth=0'' then (ok_result (listing ''cur@4.5.6''), w)
      else if c = ''npm show cur version'' then (ok_result (''4.5.6'' @ [CHR 0x0A]), w)
      else if c = ''npm list bar --depth=0''
      then (ok_result (''app@1.0.0 /srv/app'' @ [CHR 0x0A]), w)
      else if c = ''npm show bar version'' then (ok_result (''0.3.0'' @ [CHR 0x0A]), w)
      else if c = ''npm list gone --depth=0'' then (ok_result (listing ''(empty)''), w)
      else if c = ''npm list constructor --depth=0''
      then (ok_result (''app@1.0.0 /srv/app'' @ [CHR 0x0A]), w)
      else if c = ''npm show constructor version'' then (ok_result (''1.0.0'' @ [CHR 0x0A]), w)
      else (failed_result (''Command failed: '' @ c), w))"

definition npm_manifest :: package where
  "npm_manifest =
     \<lparr>dependencies = Some [''foo'' \<mapsto> ''^1.0.0'', ''pin'' \<mapsto> ''2.0.0'', ''cur'' \<mapsto> ''4.5.6''],
      devDependencies = Some Map.empty,
      peerDependencies = None\<rparr>"

definition npm_env :: "string env" where
  "npm_env =
     \<lparr>env_exec = npm_exec,
      env_existsSync = (\<lambda>p w. False),
      env_requireFile = (\<lambda>p b w. (if p = ''package.json'' then Inr npm_manifest
                                     else Inl (Error ''no such file''), w)),
      env_getPlugins = (\<lambda>k b w. (Inr [], w)),
      env_regexp = npm_regexp\<rparr>"

text \<open>
  A project in which upgrading \<open>foo\<close> leaves it outside the manifest: after
  \<open>pnpm up foo@1.2.0\<close> the listing marks it \<open>extraneous\<close>. The world tells whether the
  upgrade has run.
\<close>

definition loose_exec :: "string \<Rightarrow> string option \<Rightarrow> bool \<Rightarrow> exec_result \<times> bool" where
  "loose_exec c d w =
     (if c = ''npm list foo --depth=0''
      then (ok_result (listing (if w then ''foo@ extraneous'' else ''foo@1.0.0'')), w)
      else if c = ''npm show foo version'' then (ok_result (''1.2.0'' @ [CHR 0x0A]), w)
      else if c = ''pnpm up foo@1.2.0'' then (ok_result [], True)
      else (failed_result (''Command failed: '' @ c), w))"

definition loose_env :: "bool env" where
  "loose_env =
     \<lparr>env_exec = loose_exec,
      env_existsSync = (\<lambda>p w. False),
      env_requireFile = (\<lambda>p b w. (if p = ''package.json'' then Inr npm_manifest
                                     else Inl (Error ''no such file''), w)),
      env_getPlugins = (\<lambda>k b w. (Inr [], w)),
      env_regexp = npm_regexp\<rparr>"

text \<open>
  A plugin directory. \<open>a\<close> and \<open>c\<close> are repositories whose \<open>HEAD\<close> moves when they
  are pulled, and \<open>c\<close> cannot print its log; \<open>d\<close> is a repository that is current;
  \<open>e\<close> is a directory that is no repository; \<open>b\<close> does not exist. The world is the
  list of the repositories pulled so far. The registry lists \<open>a\<close> and \<open>b\<close>.
\<close>

definition git_log_1 :: string where
  \<open>git_log_1 = ''git log -1 --format="[%ad]%s %n" --date="format:%m-%d %H:%M"''\<close>

definition git_exec :: "string \<Rightarrow> string option \<Rightarrow> string list \<Rightarrow> exec_result \<times> string list" where
  "git_exec c d w =
     (case d of
        None \<Rightarrow> (failed_result (''Command failed: '' @ c), w)
      | Some repo \<Rightarrow>
          if repo \<notin> {''./plugins/a'', ''./plugins/c'', ''./plugins/d''}
          then (failed_result (''Command failed: '' @ c), w)
          else if c = ''git rev-parse --short HEAD''
          then (ok_result (if repo \<in> set w \<and> repo \<noteq> ''./plugins/d''
                           then ''5d6e7f8'' @ [CHR 0x0A] else ''1a2b3c4'' @ [CHR 0x0A]), w)
          else if c = ''git pull'' then (ok_result [], repo # w)
          else if c = git_log_1 \<and> repo \<noteq> ''./plugins/c''
          then (ok_result (''[03-01 12:00]fix: typo '' @ [CHR 0x0A]), w)
          else (failed_result (''Command failed: '' @ c), w))"

definition git_env :: "string list env" where
  "git_env =
     \<lparr>env_exec = git_exec,
      env_existsSync =
        (\<lambda>p w. p \<in> {''./plugins/a'', ''./plugins/a/.git'', ''./plugins/c'', ''./plugins/c/.git'',
                     ''./plugins/d'', ''./plugins/d/.git'', ''./plugins/e''}),
      env_requireFile = (\<lambda>p b w. (Inl (Error ''no such file''), w)),
      env_getPlugins = (\<lambda>k b w. (if k = ''git'' then Inr [''git:a'', ''git:b''] else Inr [], w)),
      env_regexp = (\<lambda>p g i. Inr None)\<rparr>"

section \<open>Properties of tasks\<close>

text \<open>
  Predicates on the tree of a function: it never throws; it awaits at most \<open>n\<close>
  requests on any path; all the commands it gives to the runner satisfy \<open>P\<close>; it is
  parked at an awaited request. A state \<open>extends\<close> another by commands that satisfy
  \<open>P\<close> when its trace is the other's trace followed by such commands.
\<close>

primrec never_throws :: "'a prog \<Rightarrow> bool" where
  "never_throws (Return x) = True"
| "never_throws (Throw t) = False"
| "never_throws (Exec c d k) = (\<forall>r. never_throws (k r))"
| "never_throws (Spawn c d k) = never_throws k"
| "never_throws (ExistsSync p k) = (\<forall>b. never_throws (k b))"
| "never_throws (RegExp p g i k) = (\<forall>r. never_throws (k r))"
| "never_throws (RequireFile p b k) = (\<forall>r. never_throws (k r))"
| "never_throws (GetPlugins p b k) = (\<forall>r. never_throws (k r))"

primrec within :: "'a prog \<Rightarrow> nat \<Rightarrow> bool" where
  "within (Return x) n = True"
| "within (Throw t) n = True"
| "within (Exec c d k) n = (case n of 0 \<Rightarrow> False | Suc m \<Rightarrow> \<forall>r. within (k r) m)"
| "within (Spawn c d k) n = within k n"
| "within (ExistsSync p k) n = (\<forall>b. within (k b) n)"
| "within (RegExp p g i k) n = (\<forall>r. within (k r) n)"
| "within (RequireFile p b k) n = (case n of 0 \<Rightarrow> False | Suc m \<Rightarrow> \<forall>r. within (k r) m)"
| "within (GetPlugins p b k) n = (case n of 0 \<Rightarrow> False | Suc m \<Rightarrow> \<forall>r. within (k r) m)"

primrec commands :: "(string \<Rightarrow> bool) \<Rightarrow> 'a prog \<Rightarrow> bool" where
  "commands P (Return x) = True"
| "commands P (Throw t) = True"
| "commands P (Exec c d k) = (P c \<and> (\<forall>r. commands P (k r)))"
| "commands P (Spawn c d k) = (P c \<and> commands P k)"
| "commands P (ExistsSync p k) = (\<forall>b. commands P (k b))"
| "commands P (RegExp p g i k) = (\<forall>r. commands P (k r))"
| "commands P (RequireFile p b k) = (\<forall>r. commands P (k r))"
| "commands P (GetPlugins p b k) = (\<forall>r. commands P (k r))"

text \<open>
  A function is bound to throw in an environment when it ends by throwing whatever the
  world is in which each of its requests is answered.
\<close>

primrec doomed :: "'w env \<Rightarrow> 'a prog \<Rightarrow> bool" where
  "doomed E (Return x) = False"
| "doomed E (Throw t) = True"
| "doomed E (Exec c d k) = (\<forall>w. doomed E (k (fst (env_exec E c d w))))"
| "doomed E (Spawn c d k) = doomed E k"
| "doomed E (ExistsSync p k) = (\<forall>w. doomed E (k (env_existsSync E p w)))"
| "doomed E (RegExp p g i k) = doomed E (k (env_regexp E p g i))"
| "doomed E (RequireFile p b k) = (\<forall>w. doomed E (k (fst (env_requireFile E p b w))))"
| "doomed E (GetPlugins p b k) = (\<forall>w. doomed E (k (fst (env_getPlugins E p b w))))"

fun parked :: "'a prog \<Rightarrow> bool" where
  "parked (Exec c d k) = True"
| "parked (RequireFile p b k) = True"
| "parked (GetPlugins p b k) = True"
| "parked p = False"


definition extends_by :: "(string \<Rightarrow> bool) \<Rightarrow> 'w state \<Rightarrow> 'w state \<Rightarrow> bool" where
  "extends_by P s s' = (\<exists>ext. trace s' = trace s @ ext \<and> (\<forall>x\<in>set ext. P (fst x)))"

text \<open>
  A project whose packages are named by the world: the plugins the registry lists and the
  version installed of each package. The manifest declares the installed versions. The
  remote versions are fixed; \<open>pnpm up\<close> installs what it is asked for, except for
  \<open>pin\<close>, which it leaves as it is. The regular-expression engine answers the version
  pattern of any name whose characters stand for themselves.
\<close>

record project =
  plugins :: "string list"
  installed :: "(string \<times> string) list"

definition registry :: "(string \<times> string) list" where
  "registry = [(''foo'', ''1.2.0''), (''pin'', ''3.0.0''), (''cur'', ''4.5.6''),
               (''node-karin'', ''1.8.0'')]"

definition argument :: "string \<Rightarrow> string \<Rightarrow> string \<Rightarrow> string option" where
  "argument before after c =
     (if prefix before c \<and> suffix after c \<and> length before + length after \<le> length c
      then Some (drop (length before) (take (length c - length after) c)) else None)"

fun words :: "string \<Rightarrow> string list" where
  "words [] = [[]]"
| "words (c # cs) =
     (if c = CHR '' '' then [] # words cs
      else case words cs of w # ws \<Rightarrow> (c # w) # ws | [] \<Rightarrow> [[c]])"

definition at_version :: "string \<Rightarrow> string \<times> string" where
  "at_version w =
     (rev (drop 1 (dropWhile (\<lambda>c. c \<noteq> CHR ''@'') (rev w))),
      rev (takeWhile (\<lambda>c. c \<noteq> CHR ''@'') (rev w)))"

definition upgrade :: "string \<Rightarrow> (string \<times> string) list \<Rightarrow> (string \<times> string) list" where
  "upgrade arg table =
     (case at_version arg of
        (name, version) \<Rightarrow>
          map (\<lambda>(k, v). if k = name \<and> name \<noteq> ''pin'' then (k, version) else (k, v)) table)"

definition batch_exec :: "string \<Rightarrow> string option \<Rightarrow> project \<Rightarrow> exec_result \<times> project" where
  "batch_exec c d w =
     (case argument ''npm list '' '' --depth=0'' c of
        Some name \<Rightarrow>
          (case map_of (installed w) name of
             Some v \<Rightarrow> (ok_result (listing (name @ ''@'' @ v)), w)
           | None \<Rightarrow> (ok_result (listing ''(empty)''), w))
      | None \<Rightarrow>
          (case argument ''npm show '' '' version'' c of
             Some name \<Rightarrow>
               (case map_of registry name of
                  Some v \<Rightarrow> (ok_result (v @ [CHR 0x0A]), w)
                | None \<Rightarrow> (failed_result (''Command failed: '' @ c), w))
           | None \<Rightarrow>
               (case argument ''pnpm up '' [] c of
                  Some args \<Rightarrow> (ok_result [], w\<lparr>installed := fold upgrade (words args) (installed w)\<rparr>)
                | None \<Rightarrow> (failed_result (''Command failed: '' @ c), w))))"

definition batch_regexp :: "string \<Rightarrow> string \<Rightarrow> string \<Rightarrow> thrown + string option" where
  "batch_regexp pattern flags input =
     (case argument [] (version_pattern []) pattern of
        Some name \<Rightarrow> Inr (find_version (name @ ''@'') input)
      | None \<Rightarrow> Inr None)"

definition manifest_of :: "project \<Rightarrow> package" where
  "manifest_of w = \<lparr>dependencies = Some (map_of (installed w)),
                    devDependencies = None, peerDependencies = None\<rparr>"

definition batch_env :: "project env" where
  "batch_env =
     \<lparr>env_exec = batch_exec,
      env_existsSync = (\<lambda>p w. False),
      env_requireFile =
        (\<lambda>p b w. (if p = ''package.json'' then Inr (manifest_of w)
                    else Inl (Error ''no such file''), w)),
      env_getPlugins = (\<lambda>k b w. (if k = ''npm'' then Inr (plugins w) else Inr [], w)),
      env_regexp = batch_regexp\<rparr>"


definition outdated_project :: project where
  "outdated_project = \<lparr>plugins = [''npm:foo'', ''npm:pin''],
                        installed = [(''foo'', ''1.0.0''), (''pin'', ''2.0.0''),
                                     (''node-karin'', ''1.7.0'')]\<rparr>"

definition broken_project :: project where
  "broken_project = \<lparr>plugins = [''npm:gone'', ''npm:foo''],
                      installed = [(''foo'', ''1.0.0''), (''node-karin'', ''1.7.0'')]\<rparr>"

definition updated_project :: project where
  "updated_project = \<lparr>plugins = [''npm:foo'', ''npm:pin''],
                       installed = [(''foo'', ''1.2.0''), (''pin'', ''2.0.0''),
                                    (''node-karin'', ''1.8.0'')]\<rparr>"

definition outdated_plan :: plan where
  "outdated_plan =
     \<lparr>plan_cmd = [''pnpm up'', ''foo@1.2.0'', ''pin@3.0.0'', ''node-karin@1.8.0''],
      plan_state = [(''foo'', Some (Str ''1.0.0''), Some (Str ''1.2.0'')),
                    (''pin'', Some (Str ''2.0.0''), Some (Str ''3.0.0'')),
                    (''node-karin'', Some (Str ''1.7.0''), Some (Str ''1.8.0''))]\<rparr>"


section \<open>Abbreviations for the statements\<close>

definition is_success :: "string \<Rightarrow> bool" where
  "is_success a = str_includes a msg_success"

definition successes_first :: "string list \<Rightarrow> string list" where
  "successes_first xs = rev (filter is_success xs) @ filter (\<lambda>a. \<not> is_success a) xs"

section \<open>Running a function\<close>

lemma run_await:
  "run E (await p f) s =
     (case run E p s of (Inl t, s') \<Rightarrow> (Inl t, s') | (Inr x, s') \<Rightarrow> run E (f x) s')"
  by (induction p arbitrary: s) (auto split: prod.splits sum.splits)

lemma run_try_catch:
  "run E (try_catch p h) s =
     (case run E p s of (Inl t, s') \<Rightarrow> run E (h t) s' | (Inr x, s') \<Rightarrow> (Inr x, s'))"
  by (induction p arbitrary: s) (auto split: prod.splits sum.splits)

lemma run_exec: "run E (exec c d) s = (case do_exec E c d s of (r, s') \<Rightarrow> (Inr r, s'))"
  by (simp add: exec_def)

lemma trace_do_exec: "trace (snd (do_exec E c d s)) = trace s @ [(c, d)]"
  by (simp add: do_exec_def split: prod.splits)

section \<open>The commit log\<close>

text \<open>
  C8, as the code has it. When \<open>getCommit\<close> is given both a hash and a branch, the command
  it runs is the query for the last \<open>count\<close> commits of the branch: the test for the
  branch comes after the test for the hash and overwrites the command.
\<close>

theorem getCommit_branch_wins:
  assumes "opt_hash options = Some h" and "h \<noteq> []"
    and "opt_branch options = Some b" and "b \<noteq> []"
  shows \<open>trace (snd (run E (getCommit options) s)) =
           trace s @ [(''git log -'' @ show_nat (case opt_count options of None \<Rightarrow> 1 | Some n \<Rightarrow> n)
                        @ '' '' @ b @ '' --format="[%ad] %s %n" --date="format:%m-%d %H:%M"'',
                       Some (opt_path options))]\<close>
  using assms
  by (simp add: getCommit_def Let_def run_await run_exec truthy_def show_opt_def do_exec_def
      split: prod.splits option.splits)

theorem getCommit_branch_wins_witness:
  \<open>trace (snd (run quiet_env
      (getCommit \<lparr>opt_path = ''./plugins/a'', opt_count = Some 3,
                  opt_hash = Some ''abc1234'', opt_branch = Some ''origin''\<rparr>) (start ()))) =
     [(''git log -3 origin --format="[%ad] %s %n" --date="format:%m-%d %H:%M"'',
       Some ''./plugins/a'')]\<close>
  using getCommit_branch_wins [of "\<lparr>opt_path = ''./plugins/a'', opt_count = Some 3,
      opt_hash = Some ''abc1234'', opt_branch = Some ''origin''\<rparr>" "''abc1234''" "''origin''"
      quiet_env "start ()"]
  by (simp add: start_def show_nat.simps digit_char_def)

text \<open>
  C8, as the claim has it, fails: with hash \<open>abc1234\<close> and branch \<open>origin\<close> the command
  run is not the query for the range from the hash to \<open>HEAD\<close>.
\<close>

theorem getCommit_hash_first_counterexample:
  \<open>trace (snd (run quiet_env
      (getCommit \<lparr>opt_path = ''./plugins/a'', opt_count = Some 3,
                  opt_hash = Some ''abc1234'', opt_branch = Some ''origin''\<rparr>) (start ()))) \<noteq>
     [(''git log abc1234..HEAD --format="[%ad] %s %n" --date="format:%m-%d %H:%M"'',
       Some ''./plugins/a'')]\<close>
  by (simp add: getCommit_def Let_def run_await run_exec truthy_def show_opt_def do_exec_def
      start_def quiet_env_def ok_result_def show_nat.simps digit_char_def)

section \<open>The version resolver\<close>

lemma run_getPkg:
  "run E (getPkg b) s = (case do_requireFile E ''package.json'' b s of
                           (Inl t, s') \<Rightarrow> (Inl t, s') | (Inr p, s') \<Rightarrow> (Inr p, s'))"
  by (simp add: getPkg_def requireFile_def rethrow_def split: prod.splits sum.splits)

lemma run_regexp_exec:
  "run E (regexp_exec p g i) s = (case env_regexp E p g i of Inl t \<Rightarrow> (Inl t, s) | Inr m \<Rightarrow> (Inr m, s))"
  by (simp add: regexp_exec_def rethrow_def split: sum.splits)

lemma trace_do_requireFile: "trace (snd (do_requireFile E p b s)) = trace s"
  by (simp add: do_requireFile_def split: prod.splits)

lemma trace_getPkgVersion:
  "trace (snd (run E (getPkgVersion name) s)) =
     trace s @ [(''npm list '' @ name @ '' --depth=0'', None)]"
proof -
  obtain r s1 where e: "do_exec E (''npm list '' @ name @ '' --depth=0'') None s = (r, s1)"
    by (cases "do_exec E (''npm list '' @ name @ '' --depth=0'') None s")
  obtain p s2 where q: "do_requireFile E ''package.json'' False s1 = (p, s2)"
    by (cases "do_requireFile E ''package.json'' False s1")
  have t1: "trace s1 = trace s @ [(''npm list '' @ name @ '' --depth=0'', None)]"
    using trace_do_exec [of E "''npm list '' @ name @ '' --depth=0''" None s] e by simp
  have t2: "trace s2 = trace s1"
    using trace_do_requireFile [of E "''package.json''" False s1] q by simp
  show ?thesis
    using e q t1 t2
    by (auto simp: getPkgVersion_def run_await run_exec run_getPkg run_regexp_exec Let_def
        split: option.splits sum.splits)
qed

lemma trace_getRemotePkgVersion:
  "trace (snd (run E (getRemotePkgVersion name tag) s)) =
     trace s @ [(if tag = ''latest'' then ''npm show '' @ name @ '' version''
                 else ''npm show '' @ name @ '' dist-tags.'' @ tag, None)]"
  by (auto simp: getRemotePkgVersion_def run_await run_exec Let_def do_exec_def
        split: option.splits sum.splits prod.splits)


text \<open>
  C2. \<open>checkPkgUpdate\<close> never throws. When resolving the local version throws, or when
  resolving the remote version throws, it returns status \<open>error\<close> with the thrown value.
  When both resolve, it returns status \<open>no\<close> with the local version exactly when the
  local version is the remote string, compared as strings, and status \<open>yes\<close> with both
  versions exactly when they differ.
\<close>

theorem checkPkgUpdate_outcome:
  "(\<exists>r. fst (run E (checkPkgUpdate name) s) = Inr r)
   \<and> (\<forall>t s1. run E (getPkgVersion name) s = (Inl t, s1)
          \<longrightarrow> run E (checkPkgUpdate name) s = (Inr (Check_error t), s1))
   \<and> (\<forall>local s1 t s2.
          run E (getPkgVersion name) s = (Inr local, s1)
          \<longrightarrow> run E (getRemotePkgVersion name ''latest'') s1 = (Inl t, s2)
          \<longrightarrow> run E (checkPkgUpdate name) s = (Inr (Check_error t), s2))
   \<and> (\<forall>local s1 remote s2.
          run E (getPkgVersion name) s = (Inr local, s1)
          \<longrightarrow> run E (getRemotePkgVersion name ''latest'') s1 = (Inr remote, s2)
          \<longrightarrow> run E (checkPkgUpdate name) s =
                (Inr (if local = Some (Str remote) then Check_no local
                      else Check_yes local remote), s2))"
  by (auto simp: checkPkgUpdate_def run_try_catch run_await split: prod.splits sum.splits)

theorem checkPkgUpdate_outcome_witness:
  "fst (run npm_env (checkPkgUpdate ''foo'') (start ''1.0.0''))
     = Inr (Check_yes (Some (Str ''1.0.0'')) ''1.2.0'')
   \<and> fst (run npm_env (checkPkgUpdate ''cur'') (start ''1.0.0''))
     = Inr (Check_no (Some (Str ''4.5.6'')))
   \<and> fst (run npm_env (checkPkgUpdate ''gone'') (start ''1.0.0''))
     = Inr (Check_error (not_installed ''gone''))"
proof -
  have foo_local: "run npm_env (getPkgVersion ''foo'') (start ''1.0.0'') =
      (Inr (Some (Str ''1.0.0'')), \<lparr>world = ''1.0.0'', trace = [(''npm list foo --depth=0'', None)]\<rparr>)"
    by code_simp
  have foo_remote: "run npm_env (getRemotePkgVersion ''foo'' ''latest'')
        \<lparr>world = ''1.0.0'', trace = [(''npm list foo --depth=0'', None)]\<rparr> =
      (Inr ''1.2.0'', \<lparr>world = ''1.0.0'', trace = [(''npm list foo --depth=0'', None),
                                                   (''npm show foo version'', None)]\<rparr>)"
    by code_simp
  have cur_local: "run npm_env (getPkgVersion ''cur'') (start ''1.0.0'') =
      (Inr (Some (Str ''4.5.6'')), \<lparr>world = ''1.0.0'', trace = [(''npm list cur --depth=0'', None)]\<rparr>)"
    by code_simp
  have cur_remote: "run npm_env (getRemotePkgVersion ''cur'' ''latest'')
        \<lparr>world = ''1.0.0'', trace = [(''npm list cur --depth=0'', None)]\<rparr> =
      (Inr ''4.5.6'', \<lparr>world = ''1.0.0'', trace = [(''npm list cur --depth=0'', None),
                                                   (''npm show cur version'', None)]\<rparr>)"
    by code_simp
  have gone_local: "run npm_env (getPkgVersion ''gone'') (start ''1.0.0'') =
      (Inl (not_installed ''gone''),
       \<lparr>world = ''1.0.0'', trace = [(''npm list gone --depth=0'', None)]\<rparr>)"
    by code_simp
  from checkPkgUpdate_outcome [of npm_env "''foo''" "start ''1.0.0''"] foo_local foo_remote
  have "run npm_env (checkPkgUpdate ''foo'') (start ''1.0.0'') =
      (Inr (Check_yes (Some (Str ''1.0.0'')) ''1.2.0''),
       \<lparr>world = ''1.0.0'', trace = [(''npm list foo --depth=0'', None),
                                     (''npm show foo version'', None)]\<rparr>)"
    by simp
  moreover
  from checkPkgUpdate_outcome [of npm_env "''cur''" "start ''1.0.0''"] cur_local cur_remote
  have "run npm_env (checkPkgUpdate ''cur'') (start ''1.0.0'') =
      (Inr (Check_no (Some (Str ''4.5.6''))),
       \<lparr>world = ''1.0.0'', trace = [(''npm list cur --depth=0'', None),
                                     (''npm show cur version'', None)]\<rparr>)"
    by simp
  moreover
  from checkPkgUpdate_outcome [of npm_env "''gone''" "start ''1.0.0''"] gone_local
  have "run npm_env (checkPkgUpdate ''gone'') (start ''1.0.0'') =
      (Inr (Check_error (not_installed ''gone'')),
       \<lparr>world = ''1.0.0'', trace = [(''npm list gone --depth=0'', None)]\<rparr>)"
    by simp
  ultimately show ?thesis by simp
qed


lemma lookup_undefined:
  "lookup m name = None \<longleftrightarrow> m = None \<or> (own m name = None \<and> name \<notin> set object_prototype)"
  by (simp add: lookup_def own_def split: option.splits)

text \<open>
  C10, as the code has it. When the listing command reports no error, its output carries
  neither of the markers \<open>empty\<close> and \<open>extraneous\<close> and no version match, the file has
  the name in none of the three maps of the manifest, and the name is not the name of a
  member of \<open>Object.prototype\<close>, \<open>getPkgVersion\<close> resolves to \<open>undefined\<close>;
  \<open>checkPkgUpdate\<close> then returns status \<open>yes\<close> with an undefined local version whenever
  the remote version resolves.
\<close>

theorem getPkgVersion_undefined:
  assumes "do_exec E (''npm list '' @ name @ '' --depth=0'') None s = (r, s1)"
    and "error r = None"
    and "\<not> str_includes (stdout r) ''empty''"
    and "\<not> str_includes (stdout r) ''extraneous''"
    and "env_regexp E (version_pattern name) ''gm'' (stdout r) = Inr None"
    and "do_requireFile E ''package.json'' False s1 = (Inr pkg, s2)"
    and "own (dependencies pkg) name = None"
    and "own (devDependencies pkg) name = None"
    and "own (peerDependencies pkg) name = None"
    and "name \<notin> set object_prototype"
  shows "run E (getPkgVersion name) s = (Inr None, s2)
         \<and> (\<forall>remote s3. run E (getRemotePkgVersion name ''latest'') s2 = (Inr remote, s3)
               \<longrightarrow> run E (checkPkgUpdate name) s = (Inr (Check_yes None remote), s3))"
proof -
  have "lookup (dependencies pkg) name = None" "lookup (devDependencies pkg) name = None"
    "lookup (peerDependencies pkg) name = None"
    using assms(7-10) by (simp_all add: lookup_undefined)
  then have local: "run E (getPkgVersion name) s = (Inr None, s2)"
    using assms(1-6)
    by (simp add: getPkgVersion_def run_await run_exec run_getPkg run_regexp_exec Let_def
        js_or_def truthy_def truthy_version_def)
  then show ?thesis
    by (simp add: checkPkgUpdate_def run_try_catch run_await)
qed

theorem getPkgVersion_undefined_witness:
  "run npm_env (getPkgVersion ''bar'') (start ''1.0.0'') =
     (Inr None, \<lparr>world = ''1.0.0'', trace = [(''npm list bar --depth=0'', None)]\<rparr>)
   \<and> fst (run npm_env (checkPkgUpdate ''bar'') (start ''1.0.0'')) = Inr (Check_yes None ''0.3.0'')"
proof -
  let ?s1 = "\<lparr>world = ''1.0.0'', trace = [(''npm list bar --depth=0'', None)]\<rparr>"
  let ?r = "ok_result (''app@1.0.0 /srv/app'' @ [CHR 0x0A])"
  have 1: "do_exec npm_env (''npm list '' @ ''bar'' @ '' --depth=0'') None (start ''1.0.0'') = (?r, ?s1)"
    by code_simp
  have 2: "error ?r = None" by code_simp
  have 3: "\<not> str_includes (stdout ?r) ''empty''" by code_simp
  have 4: "\<not> str_includes (stdout ?r) ''extraneous''" by code_simp
  have 5: "env_regexp npm_env (version_pattern ''bar'') ''gm'' (stdout ?r) = Inr None" by code_simp
  have 6: "do_requireFile npm_env ''package.json'' False ?s1 = (Inr npm_manifest, ?s1)"
    by (simp add: do_requireFile_def npm_env_def)
  have 7: "own (dependencies npm_manifest) ''bar'' = None" by code_simp
  have 8: "own (devDependencies npm_manifest) ''bar'' = None" by code_simp
  have 9: "own (peerDependencies npm_manifest) ''bar'' = None" by code_simp
  have 10: "''bar'' \<notin> set object_prototype" by code_simp
  have remote: "run npm_env (getRemotePkgVersion ''bar'' ''latest'') ?s1 =
      (Inr ''0.3.0'', \<lparr>world = ''1.0.0'', trace = [(''npm list bar --depth=0'', None),
                                                   (''npm show bar version'', None)]\<rparr>)"
    by code_simp
  from getPkgVersion_undefined [OF 1 2 3 4 5 6 7 8 9 10] remote show ?thesis by simp
qed

text \<open>
  The condition on the name is needed: the file has the name \<open>constructor\<close> in no map,
  its listing reports no error and carries no marker and no version, and the local
  version that \<open>getPkgVersion\<close> resolves is the function that \<open>Object.prototype\<close> has
  under that name.
\<close>

lemma getPkgVersion_member:
  "own (dependencies npm_manifest) ''constructor'' = None
   \<and> own (devDependencies npm_manifest) ''constructor'' = None
   \<and> own (peerDependencies npm_manifest) ''constructor'' = None
   \<and> fst (run npm_env (getPkgVersion ''constructor'') (start ''1.0.0''))
       = Inr (Some (Member ''constructor''))
   \<and> fst (run npm_env (checkPkgUpdate ''constructor'') (start ''1.0.0''))
       = Inr (Check_yes (Some (Member ''constructor'')) ''1.0.0'')"
  by code_simp


text \<open>
  C10, as the claim has it, fails without the condition on the markers: the listing of
  \<open>gone\<close> reports no error, has no version match, and reading \<open>gone\<close> from each map
  of the manifest gives \<open>undefined\<close>, yet \<open>getPkgVersion\<close> throws, because the listing
  says \<open>(empty)\<close>.
\<close>

theorem getPkgVersion_marker_counterexample:
  "error (fst (do_exec npm_env ''npm list gone --depth=0'' None (start ''1.0.0''))) = None
   \<and> env_regexp npm_env (version_pattern ''gone'') ''gm''
        (stdout (fst (do_exec npm_env ''npm list gone --depth=0'' None (start ''1.0.0'')))) = Inr None
   \<and> lookup (dependencies npm_manifest) ''gone'' = None
   \<and> lookup (devDependencies npm_manifest) ''gone'' = None
   \<and> lookup (peerDependencies npm_manifest) ''gone'' = None
   \<and> fst (run npm_env (getPkgVersion ''gone'') (start ''1.0.0'')) = Inl (not_installed ''gone'')"
  by code_simp


section \<open>Updating one package\<close>

text \<open>
  C1, as the code has it. Let the local and the remote version resolve. When they are
  equal, \<open>updatePkg\<close> returns status \<open>failed\<close> and the only commands run are the two
  that resolved the versions: the upgrade command is not among them. When they differ and
  the upgrade command reports no error, the local version is resolved again, and there
  are three outcomes: status \<open>ok\<close> when the resolution returns the remote version fetched
  before; status \<open>failed\<close> with the hint to update by hand when it returns anything
  else; status \<open>failed\<close> with the thrown value, and no hint, when it throws. So
  \<open>updatePkg\<close> returns \<open>ok\<close> only in the first of the three. When the upgrade
  command reports an error, \<open>updatePkg\<close> returns status \<open>failed\<close> with that error.
\<close>

theorem updatePkg_outcome:
  assumes "run E (getPkgVersion name) s = (Inr local, s1)"
    and "run E (getRemotePkgVersion name tag) s1 = (Inr remote, s2)"
  shows "(local = Some (Str remote) \<longrightarrow>
            run E (updatePkg name tag) s =
              (Inr (Failed (Text (no_update_line name local (Some (Str remote))))), s2)
            \<and> trace s2 =
                trace s @ [(''npm list '' @ name @ '' --depth=0'', None),
                           (if tag = ''latest'' then ''npm show '' @ name @ '' version''
                            else ''npm show '' @ name @ '' dist-tags.'' @ tag, None)])
         \<and> (local \<noteq> Some (Str remote) \<longrightarrow>
              (\<forall>r s3 updatedVersion s4.
                 do_exec E (''pnpm up '' @ name @ ''@'' @ remote) None s2 = (r, s3)
                 \<longrightarrow> error r = None
                 \<longrightarrow> run E (getPkgVersion name) s3 = (Inr updatedVersion, s4)
                 \<longrightarrow> run E (updatePkg name tag) s =
                       (Inr (if updatedVersion = Some (Str remote)
                             then Ok (updated_line name local (Some (Str remote))) local remote
                             else Failed (Text (manual_hint_line name (Some (Str remote))))), s4))
              \<and> (\<forall>r s3 t s4.
                 do_exec E (''pnpm up '' @ name @ ''@'' @ remote) None s2 = (r, s3)
                 \<longrightarrow> error r = None
                 \<longrightarrow> run E (getPkgVersion name) s3 = (Inl t, s4)
                 \<longrightarrow> run E (updatePkg name tag) s = (Inr (Failed (Caught t)), s4))
              \<and> (\<forall>r s3 e.
                 do_exec E (''pnpm up '' @ name @ ''@'' @ remote) None s2 = (r, s3)
                 \<longrightarrow> error r = Some e
                 \<longrightarrow> run E (updatePkg name tag) s =
                       (Inr (Failed (Caught (ExecException e))), s3)))"
proof -
  have t1: "trace s1 = trace s @ [(''npm list '' @ name @ '' --depth=0'', None)]"
    using trace_getPkgVersion [of E name s] assms(1) by simp
  have t2: "trace s2 = trace s1 @ [(if tag = ''latest'' then ''npm show '' @ name @ '' version''
                            else ''npm show '' @ name @ '' dist-tags.'' @ tag, None)]"
    using trace_getRemotePkgVersion [of E name tag s1] assms(2) by simp
  show ?thesis
    using assms t1 t2
    by (auto simp: updatePkg_def run_try_catch run_await run_exec Let_def)
qed

theorem updatePkg_outcome_witness:
  "fst (run npm_env (updatePkg ''cur'' ''latest'') (start ''1.0.0''))
     = Inr (Failed (Text (no_update_line ''cur'' (Some (Str ''4.5.6'')) (Some (Str ''4.5.6'')))))
   \<and> trace (snd (run npm_env (updatePkg ''cur'' ''latest'') (start ''1.0.0'')))
     = [(''npm list cur --depth=0'', None), (''npm show cur version'', None)]
   \<and> fst (run npm_env (updatePkg ''foo'' ''latest'') (start ''1.0.0''))
     = Inr (Ok (updated_line ''foo'' (Some (Str ''1.0.0'')) (Some (Str ''1.2.0''))) (Some (Str ''1.0.0'')) ''1.2.0'')
   \<and> fst (run npm_env (updatePkg ''pin'' ''latest'') (start ''1.0.0''))
     = Inr (Failed (Text (manual_hint_line ''pin'' (Some (Str ''3.0.0'')))))
   \<and> fst (run loose_env (updatePkg ''foo'' ''latest'') (start False))
     = Inr (Failed (Caught (not_installed ''foo'')))"
proof -
  let ?l1 = "\<lparr>world = False, trace = [(''npm list foo --depth=0'', None)]\<rparr>"
  let ?l2 = "\<lparr>world = False, trace = [(''npm list foo --depth=0'', None),
                                          (''npm show foo version'', None)]\<rparr>"
  let ?l3 = "\<lparr>world = True, trace = [(''npm list foo --depth=0'', None),
                  (''npm show foo version'', None), (''pnpm up foo@1.2.0'', None)]\<rparr>"
  let ?l4 = "\<lparr>world = True, trace = [(''npm list foo --depth=0'', None),
                  (''npm show foo version'', None), (''pnpm up foo@1.2.0'', None),
                  (''npm list foo --depth=0'', None)]\<rparr>"
  have loose_local: "run loose_env (getPkgVersion ''foo'') (start False) = (Inr (Some (Str ''1.0.0'')), ?l1)"
    by code_simp
  have loose_remote: "run loose_env (getRemotePkgVersion ''foo'' ''latest'') ?l1 = (Inr ''1.2.0'', ?l2)"
    by code_simp
  have loose_up: "do_exec loose_env (''pnpm up '' @ ''foo'' @ ''@'' @ ''1.2.0'') None ?l2 = (ok_result [], ?l3)"
    by code_simp
  have loose_again: "run loose_env (getPkgVersion ''foo'') ?l3 = (Inl (not_installed ''foo''), ?l4)"
    by code_simp
  let ?cur1 = "\<lparr>world = ''1.0.0'', trace = [(''npm list cur --depth=0'', None)]\<rparr>"
  let ?cur2 = "\<lparr>world = ''1.0.0'', trace = [(''npm list cur --depth=0'', None),
                                            (''npm show cur version'', None)]\<rparr>"
  have cur_local: "run npm_env (getPkgVersion ''cur'') (start ''1.0.0'') = (Inr (Some (Str ''4.5.6'')), ?cur1)"
    by code_simp
  have cur_remote: "run npm_env (getRemotePkgVersion ''cur'' ''latest'') ?cur1 = (Inr ''4.5.6'', ?cur2)"
    by code_simp
  let ?foo1 = "\<lparr>world = ''1.0.0'', trace = [(''npm list foo --depth=0'', None)]\<rparr>"
  let ?foo2 = "\<lparr>world = ''1.0.0'', trace = [(''npm list foo --depth=0'', None),
                                            (''npm show foo version'', None)]\<rparr>"
  let ?foo3 = "\<lparr>world = ''1.2.0'', trace = [(''npm list foo --depth=0'', None),
                  (''npm show foo version'', None), (''pnpm up foo@1.2.0'', None)]\<rparr>"
  let ?foo4 = "\<lparr>world = ''1.2.0'', trace = [(''npm list foo --depth=0'', None),
                  (''npm show foo version'', None), (''pnpm up foo@1.2.0'', None),
                  (''npm list foo --depth=0'', None)]\<rparr>"
  have foo_local: "run npm_env (getPkgVersion ''foo'') (start ''1.0.0'') = (Inr (Some (Str ''1.0.0'')), ?foo1)"
    by code_simp
  have foo_remote: "run npm_env (getRemotePkgVersion ''foo'' ''latest'') ?foo1 = (Inr ''1.2.0'', ?foo2)"
    by code_simp
  have foo_up: "do_exec npm_env (''pnpm up '' @ ''foo'' @ ''@'' @ ''1.2.0'') None ?foo2 = (ok_result [], ?foo3)"
    by code_simp
  have foo_again: "run npm_env (getPkgVersion ''foo'') ?foo3 = (Inr (Some (Str ''1.2.0'')), ?foo4)"
    by code_simp
  let ?pin1 = "\<lparr>world = ''1.0.0'', trace = [(''npm list pin --depth=0'', None)]\<rparr>"
  let ?pin2 = "\<lparr>world = ''1.0.0'', trace = [(''npm list pin --depth=0'', None),
                                            (''npm show pin version'', None)]\<rparr>"
  let ?pin3 = "\<lparr>world = ''1.0.0'', trace = [(''npm list pin --depth=0'', None),
                  (''npm show pin version'', None), (''pnpm up pin@3.0.0'', None)]\<rparr>"
  let ?pin4 = "\<lparr>world = ''1.0.0'', trace = [(''npm list pin --depth=0'', None),
                  (''npm show pin version'', None), (''pnpm up pin@3.0.0'', None),
                  (''npm list pin --depth=0'', None)]\<rparr>"
  have pin_local: "run npm_env (getPkgVersion ''pin'') (start ''1.0.0'') = (Inr (Some (Str ''2.0.0'')), ?pin1)"
    by code_simp
  have pin_remote: "run npm_env (getRemotePkgVersion ''pin'' ''latest'') ?pin1 = (Inr ''3.0.0'', ?pin2)"
    by code_simp
  have pin_up: "do_exec npm_env (''pnpm up '' @ ''pin'' @ ''@'' @ ''3.0.0'') None ?pin2 = (ok_result [], ?pin3)"
    by code_simp
  have pin_again: "run npm_env (getPkgVersion ''pin'') ?pin3 = (Inr (Some (Str ''2.0.0'')), ?pin4)"
    by code_simp
  have ok: "error (ok_result []) = None" by (simp add: ok_result_def)
  from updatePkg_outcome [OF cur_local cur_remote]
  have "run npm_env (updatePkg ''cur'' ''latest'') (start ''1.0.0'') =
          (Inr (Failed (Text (no_update_line ''cur'' (Some (Str ''4.5.6'')) (Some (Str ''4.5.6''))))), ?cur2)"
    by simp
  moreover
  from updatePkg_outcome [OF foo_local foo_remote] foo_up foo_again ok
  have "run npm_env (updatePkg ''foo'' ''latest'') (start ''1.0.0'') =
          (Inr (Ok (updated_line ''foo'' (Some (Str ''1.0.0'')) (Some (Str ''1.2.0''))) (Some (Str ''1.0.0'')) ''1.2.0''), ?foo4)"
    by simp
  moreover
  from updatePkg_outcome [OF pin_local pin_remote] pin_up pin_again ok
  have "run npm_env (updatePkg ''pin'' ''latest'') (start ''1.0.0'') =
          (Inr (Failed (Text (manual_hint_line ''pin'' (Some (Str ''3.0.0''))))), ?pin4)"
    by simp
  moreover
  from updatePkg_outcome [OF loose_local loose_remote] loose_up loose_again ok
  have "run loose_env (updatePkg ''foo'' ''latest'') (start False) =
          (Inr (Failed (Caught (not_installed ''foo''))), ?l4)"
    by simp
  ultimately show ?thesis by simp
qed

text \<open>
  C1, as the claim has it, fails when the second resolution throws: the upgrade of
  \<open>foo\<close> reports no error and the listing then marks \<open>foo\<close> as \<open>extraneous\<close>, so
  \<open>updatePkg\<close> returns status \<open>failed\<close> with the error of the resolver, which is not
  the hint to update by hand.
\<close>

theorem updatePkg_hint_counterexample:
  "fst (run loose_env (getPkgVersion ''foo'') (start False)) = Inr (Some (Str ''1.0.0''))
   \<and> fst (run loose_env (getRemotePkgVersion ''foo'' ''latest'') (start False)) = Inr ''1.2.0''
   \<and> error (fst (env_exec loose_env ''pnpm up foo@1.2.0'' None False)) = None
   \<and> trace (snd (run loose_env (updatePkg ''foo'' ''latest'') (start False))) =
       [(''npm list foo --depth=0'', None), (''npm show foo version'', None),
        (''pnpm up foo@1.2.0'', None), (''npm list foo --depth=0'', None)]
   \<and> fst (run loose_env (updatePkg ''foo'' ''latest'') (start False))
       = Inr (Failed (Caught (not_installed ''foo'')))
   \<and> fst (run loose_env (updatePkg ''foo'' ''latest'') (start False))
       \<noteq> Inr (Failed (Text (manual_hint_line ''foo'' (Some (Str ''1.2.0'')))))"
  by code_simp

section \<open>The git orchestrator\<close>

lemma run_getHash:
  "run E (getHash filePath short) s =
     (case do_exec E (if short then ''git rev-parse --short HEAD'' else ''git rev-parse HEAD'')
             (Some filePath) s of
        (r, s') \<Rightarrow> (case error r of Some e \<Rightarrow> (Inl (ExecException e), s')
                               | None \<Rightarrow> (Inr (stdout r), s')))"
  by (simp add: getHash_def run_await run_exec Let_def split: prod.splits option.splits)


text \<open>
  C7. For a path that does not exist, \<open>checkGitPluginUpdate\<close> returns status \<open>error\<close>
  with an \<open>Error\<close> whose message says that the path does not exist, and for a path that
  exists without a \<open>.git\<close> directory it returns status \<open>error\<close> with an \<open>Error\<close> whose
  message says that the path is no git repository; \<open>updateGitPlugin\<close> makes the same two
  checks and returns status \<open>failed\<close> with the same message as its text. Neither runs a
  command.
\<close>

theorem path_checks:
  "(\<not> env_existsSync E filePath (world s) \<longrightarrow>
      run E (checkGitPluginUpdate filePath time) s = (Inr (Git_error (Error msg_no_path)), s)
      \<and> run E (updateGitPlugin filePath cmd time) s = (Inr (Git_failed (Text msg_no_path)), s))
   \<and> (env_existsSync E filePath (world s)
        \<and> \<not> env_existsSync E (filePath @ ''/.git'') (world s) \<longrightarrow>
      run E (checkGitPluginUpdate filePath time) s = (Inr (Git_error (Error msg_not_git)), s)
      \<and> run E (updateGitPlugin filePath cmd time) s = (Inr (Git_failed (Text msg_not_git)), s))"
  by (simp add: checkGitPluginUpdate_def updateGitPlugin_def run_try_catch)

theorem path_checks_witness:
  "run git_env (checkGitPluginUpdate ''./plugins/b'' 120) (start []) =
     (Inr (Git_error (Error msg_no_path)), start [])
   \<and> run git_env (updateGitPlugin ''./plugins/b'' ''git pull'' 120) (start []) =
     (Inr (Git_failed (Text msg_no_path)), start [])
   \<and> run git_env (checkGitPluginUpdate ''./plugins/e'' 120) (start []) =
     (Inr (Git_error (Error msg_not_git)), start [])
   \<and> run git_env (updateGitPlugin ''./plugins/e'' ''git pull'' 120) (start []) =
     (Inr (Git_failed (Text msg_not_git)), start [])"
proof -
  have b: "\<not> env_existsSync git_env ''./plugins/b'' (world (start []))" by code_simp
  have e: "env_existsSync git_env ''./plugins/e'' (world (start []))" by code_simp
  have e_git: "\<not> env_existsSync git_env (''./plugins/e'' @ ''/.git'') (world (start []))" by code_simp
  from path_checks [of git_env "''./plugins/b''" "start []" 120 "''git pull''"] b
       path_checks [of git_env "''./plugins/e''" "start []" 120 "''git pull''"] e e_git
  show ?thesis by simp
qed








section \<open>Tasks and aggregates\<close>

lemma within_add: "within p n \<Longrightarrow> within p (n + j)"
proof (induction p arbitrary: n)
  case (Exec c d k)
  then show ?case by (cases n) simp_all
next
  case (RequireFile p b k)
  then show ?case by (cases n) simp_all
next
  case (GetPlugins p b k)
  then show ?case by (cases n) simp_all
qed simp_all

lemma within_mono: "within p n \<Longrightarrow> n \<le> m \<Longrightarrow> within p m"
  using within_add [of p n "m - n"] by simp

lemma within_await:
  "within p n \<Longrightarrow> (\<And>x. within (f x) m) \<Longrightarrow> within (await p f) (n + m)"
proof (induction p arbitrary: n)
  case (Return x)
  then show ?case using within_mono [of "f x" m "n + m"] by simp
next
  case (Exec c d k)
  then show ?case by (cases n) simp_all
next
  case (RequireFile p b k)
  then show ?case by (cases n) simp_all
next
  case (GetPlugins p b k)
  then show ?case by (cases n) simp_all
qed simp_all

lemma within_try_catch:
  "within p n \<Longrightarrow> (\<And>t. within (h t) m) \<Longrightarrow> within (try_catch p h) (n + m)"
proof (induction p arbitrary: n)
  case (Throw t)
  then show ?case using within_mono [of "h t" m "n + m"] by simp
next
  case (Exec c d k)
  then show ?case by (cases n) simp_all
next
  case (RequireFile p b k)
  then show ?case by (cases n) simp_all
next
  case (GetPlugins p b k)
  then show ?case by (cases n) simp_all
qed simp_all

lemma never_throws_await:
  "never_throws p \<Longrightarrow> (\<And>x. never_throws (f x)) \<Longrightarrow> never_throws (await p f)"
  by (induction p) simp_all


lemma commands_await:
  "commands P p \<Longrightarrow> (\<And>x. commands P (f x)) \<Longrightarrow> commands P (await p f)"
  by (induction p) simp_all

lemma commands_try_catch:
  "commands P p \<Longrightarrow> (\<And>t. commands P (h t)) \<Longrightarrow> commands P (try_catch p h)"
  by (induction p) simp_all

lemma within_getHash: "within (getHash p b) (Suc 0)"
  by (simp add: getHash_def Let_def exec_def split: option.splits)

lemma within_getCommit: "within (getCommit options) (Suc 0)"
  by (simp add: getCommit_def Let_def exec_def split: option.splits)



lemma within_getPkgVersion: "within (getPkgVersion name) (Suc (Suc 0))"
  by (simp add: getPkgVersion_def getPkg_def requireFile_def regexp_exec_def rethrow_def
      exec_def Let_def split: option.splits sum.splits)

lemma within_getRemotePkgVersion: "within (getRemotePkgVersion name tag) (Suc 0)"
  by (simp add: getRemotePkgVersion_def exec_def Let_def split: option.splits)

lemma within_updateAllPkg_probe: "within (updateAllPkg_probe pkg name) (Suc (Suc (Suc 0)))"
proof -
  have "within (await (getPkgVersion n) f) (Suc (Suc 0) + Suc 0)"
    if "\<And>x. within (f x) (Suc 0)" for n and f :: "version option \<Rightarrow> probe prog"
    using within_await [OF within_getPkgVersion, of f "Suc 0" n] that by simp
  moreover have "within (await (getRemotePkgVersion n ''latest'') f) (Suc 0 + 0)"
    if "\<And>x. within (f x) 0" for n and f :: "string \<Rightarrow> probe prog"
    using within_await [OF within_getRemotePkgVersion, of f 0 n] that by simp
  ultimately show ?thesis
    by (simp add: updateAllPkg_probe_def Let_def split: option.splits)
qed

lemma extends_by_refl: "extends_by P s s"
  by (simp add: extends_by_def)

lemma extends_by_trans: "extends_by P s s' \<Longrightarrow> extends_by P s' s'' \<Longrightarrow> extends_by P s s''"
  by (fastforce simp: extends_by_def)

lemma extends_by_do_exec: "P c \<Longrightarrow> extends_by P s (snd (do_exec E c d s))"
  by (simp add: extends_by_def do_exec_def split: prod.splits)

lemma extends_by_do_requireFile: "extends_by P s (snd (do_requireFile E f b s))"
  by (simp add: extends_by_def do_requireFile_def split: prod.splits)

lemma extends_by_do_getPlugins: "extends_by P s (snd (do_getPlugins E f b s))"
  by (simp add: extends_by_def do_getPlugins_def split: prod.splits)

lemma extends_by_run: "commands P p \<Longrightarrow> extends_by P s (snd (run E p s))"
proof (induction p arbitrary: s)
  case (Exec c d k)
  obtain r s' where e: "do_exec E c d s = (r, s')" by (cases "do_exec E c d s")
  have "extends_by P s s'" using extends_by_do_exec [of P c s E d] Exec.prems e by simp
  moreover have "extends_by P s' (snd (run E (k r) s'))" using Exec by simp
  ultimately show ?case using e extends_by_trans by fastforce
next
  case (Spawn c d k)
  obtain r s' where e: "do_exec E c d s = (r, s')" by (cases "do_exec E c d s")
  have "extends_by P s s'" using extends_by_do_exec [of P c s E d] Spawn.prems e by simp
  moreover have "extends_by P s' (snd (run E k s'))" using Spawn by simp
  ultimately show ?case using e extends_by_trans by fastforce
next
  case (RequireFile f b k)
  obtain r s' where e: "do_requireFile E f b s = (r, s')" by (cases "do_requireFile E f b s")
  have "extends_by P s s'" using extends_by_do_requireFile [of P s E f b] e by simp
  moreover have "extends_by P s' (snd (run E (k r) s'))" using RequireFile by simp
  ultimately show ?case using e extends_by_trans by fastforce
next
  case (GetPlugins f b k)
  obtain r s' where e: "do_getPlugins E f b s = (r, s')" by (cases "do_getPlugins E f b s")
  have "extends_by P s s'" using extends_by_do_getPlugins [of P s E f b] e by simp
  moreover have "extends_by P s' (snd (run E (k r) s'))" using GetPlugins by simp
  ultimately show ?case using e extends_by_trans by fastforce
qed (simp_all add: extends_by_refl)

lemma advance_within: "within p n \<Longrightarrow> within (fst (advance E p s)) n"
  by (induction p arbitrary: s) (simp_all split: prod.splits)


lemma advance_commands: "commands P p \<Longrightarrow> commands P (fst (advance E p s))"
  by (induction p arbitrary: s) (simp_all split: prod.splits)

lemma advance_parked:
  "outcome (fst (advance E p s)) = None \<Longrightarrow> parked (fst (advance E p s))"
  by (induction p arbitrary: s) (simp_all split: prod.splits)

lemma advance_extends: "commands P p \<Longrightarrow> extends_by P s (snd (advance E p s))"
proof (induction p arbitrary: s)
  case (Spawn c d k)
  obtain r s' where e: "do_exec E c d s = (r, s')" by (cases "do_exec E c d s")
  have "extends_by P s s'" using extends_by_do_exec [of P c s E d] Spawn.prems e by simp
  moreover have "extends_by P s' (snd (advance E k s'))" using Spawn by simp
  ultimately show ?case using e extends_by_trans by fastforce
qed (simp_all add: extends_by_refl)

lemma resume_within:
  "parked p \<Longrightarrow> within p n \<Longrightarrow> \<exists>m. n = Suc m \<and> within (fst (resume E p s)) m"
  by (cases p; cases n) (simp_all add: resume_def advance_within split: prod.splits)


lemma resume_commands: "commands P p \<Longrightarrow> commands P (fst (resume E p s))"
  by (cases p) (simp_all add: resume_def advance_commands split: prod.splits)

lemma resume_parked:
  "parked p \<Longrightarrow> outcome (fst (resume E p s)) = None \<Longrightarrow> parked (fst (resume E p s))"
  by (cases p) (simp_all add: resume_def advance_parked split: prod.splits)

lemma resume_extends: "commands P p \<Longrightarrow> extends_by P s (snd (resume E p s))"
proof (cases p)
  case (Exec c d k)
  assume a: "commands P p"
  obtain r s' where e: "do_exec E c d s = (r, s')" by (cases "do_exec E c d s")
  have "extends_by P s s'" using extends_by_do_exec [of P c s E d] a Exec e by simp
  moreover have "extends_by P s' (snd (advance E (k r) s'))"
    using advance_extends [of P "k r" s' E] a Exec by simp
  ultimately show ?thesis using e Exec extends_by_trans by (fastforce simp: resume_def)
next
  case (RequireFile f b k)
  assume a: "commands P p"
  obtain r s' where e: "do_requireFile E f b s = (r, s')" by (cases "do_requireFile E f b s")
  have "extends_by P s s'" using extends_by_do_requireFile [of P s E f b] e by simp
  moreover have "extends_by P s' (snd (advance E (k r) s'))"
    using advance_extends [of P "k r" s' E] a RequireFile by simp
  ultimately show ?thesis using e RequireFile extends_by_trans by (fastforce simp: resume_def)
next
  case (GetPlugins f b k)
  assume a: "commands P p"
  obtain r s' where e: "do_getPlugins E f b s = (r, s')" by (cases "do_getPlugins E f b s")
  have "extends_by P s s'" using extends_by_do_getPlugins [of P s E f b] e by simp
  moreover have "extends_by P s' (snd (advance E (k r) s'))"
    using advance_extends [of P "k r" s' E] a GetPlugins by simp
  ultimately show ?thesis using e GetPlugins extends_by_trans by (fastforce simp: resume_def)
qed (simp_all add: resume_def extends_by_refl)

lemma settle_step:
  assumes "pending \<noteq> []"
  shows "settle E ff (n # sched) pending done s =
     (case resume E (snd (pending ! (n mod length pending))) s of
        (q', s') \<Rightarrow>
          (case outcome q' of
             None \<Rightarrow> settle E ff sched
                       (pending[n mod length pending := (fst (pending ! (n mod length pending)), q')])
                       done s'
           | Some r \<Rightarrow>
               if ff \<and> isl r
               then Some (done @ [(fst (pending ! (n mod length pending)), r)], s')
               else settle E ff sched
                      (take (n mod length pending) pending
                       @ drop (Suc (n mod length pending)) pending)
                      (done @ [(fst (pending ! (n mod length pending)), r)]) s'))"
  using assms by (cases pending) (auto simp: Let_def split: prod.splits option.splits)

lemma parked_within_pos: "parked q \<Longrightarrow> within q n \<Longrightarrow> 0 < n"
  by (cases q; cases n) simp_all


lemma sum_list_remove:
  fixes bs :: "nat list"
  assumes "i < length bs"
  shows "sum_list (take i bs @ drop (Suc i) bs) + bs ! i = sum_list bs"
proof -
  have "bs = take i bs @ bs ! i # drop (Suc i) bs"
    using assms by (rule id_take_nth_drop)
  then have "sum_list bs = sum_list (take i bs @ bs ! i # drop (Suc i) bs)" by simp
  then show ?thesis by simp
qed

lemma settle_completes:
  "list_all2 (\<lambda>x b. parked (snd x) \<and> within (snd x) b) pending bs
   \<Longrightarrow> sum_list bs \<le> length sched
   \<Longrightarrow> settle E ff sched pending done s \<noteq> None"
proof (induction sched arbitrary: pending bs "done" s)
  case Nil
  show ?case
  proof (cases pending)
    case Nil
    then show ?thesis by simp
  next
    case (Cons p ps)
    with Nil.prems obtain b bs' where "bs = b # bs'" "parked (snd p)" "within (snd p) b"
      by (auto simp: list_all2_Cons1)
    with Nil.prems parked_within_pos [of "snd p" b] show ?thesis by simp
  qed
next
  case (Cons n sched)
  show ?case
  proof (cases "pending = []")
    case True
    then show ?thesis by simp
  next
    case False
    let ?i = "n mod length pending"
    have len: "length bs = length pending"
      using Cons.prems(1) by (simp add: list_all2_lengthD)
    have i: "?i < length pending" using False by simp
    then have ib: "?i < length bs" using len by simp
    have at: "parked (snd (pending ! ?i))" "within (snd (pending ! ?i)) (bs ! ?i)"
      using Cons.prems(1) i by (auto simp: list_all2_conv_all_nth)
    obtain q' s' where r: "resume E (snd (pending ! ?i)) s = (q', s')"
      by (cases "resume E (snd (pending ! ?i)) s")
    obtain m where m: "bs ! ?i = Suc m" "within q' m"
      using resume_within [OF at, of E s] r by auto
    have le_sum: "bs ! ?i \<le> sum_list bs"
      using ib by (simp add: member_le_sum_list)
    show ?thesis
    proof (cases "outcome q'")
      case None
      then have pq: "parked q'" using resume_parked [OF at(1), of E s] r by simp
      have "list_all2 (\<lambda>x b. parked (snd x) \<and> within (snd x) b)
              (pending[?i := (fst (pending ! ?i), q')]) (bs[?i := m])"
        using Cons.prems(1) pq m(2) by (simp add: list_all2_update_cong)
      moreover have "sum_list (bs[?i := m]) \<le> length sched"
        using sum_list_update [OF ib, of m] m(1) le_sum Cons.prems(2) by simp
      ultimately have "settle E ff sched (pending[?i := (fst (pending ! ?i), q')]) done s' \<noteq> None"
        by (rule Cons.IH)
      then show ?thesis using False r None by (simp add: settle_step)
    next
      case (Some res)
      have "list_all2 (\<lambda>x b. parked (snd x) \<and> within (snd x) b)
              (take ?i pending @ drop (Suc ?i) pending) (take ?i bs @ drop (Suc ?i) bs)"
        using Cons.prems(1) by (intro list_all2_appendI list_all2_takeI list_all2_dropI)
      moreover have "sum_list (take ?i bs @ drop (Suc ?i) bs) \<le> length sched"
        using sum_list_remove [OF ib] m(1) Cons.prems(2) by simp
      ultimately have "settle E ff sched (take ?i pending @ drop (Suc ?i) pending)
                         (done @ [(fst (pending ! ?i), res)]) s' \<noteq> None"
        by (rule Cons.IH)
      then show ?thesis using False r Some by (simp add: settle_step)
    qed
  qed
qed



lemma settle_extends:
  "\<forall>x\<in>set pending. commands P (snd x)
   \<Longrightarrow> settle E ff sched pending done s = Some (done', s')
   \<Longrightarrow> extends_by P s s'"
proof (induction sched arbitrary: pending "done" s)
  case Nil
  then show ?case by (cases pending) (simp_all add: extends_by_refl)
next
  case (Cons n sched)
  show ?case
  proof (cases "pending = []")
    case True
    with Cons.prems show ?thesis by (simp add: extends_by_refl)
  next
    case False
    let ?i = "n mod length pending"
    have i: "?i < length pending" using False by simp
    obtain q' t where r: "resume E (snd (pending ! ?i)) s = (q', t)"
      by (cases "resume E (snd (pending ! ?i)) s")
    have c: "commands P (snd (pending ! ?i))" using Cons.prems(1) i by simp
    have cq: "commands P q'" using resume_commands [OF c, of E s] r by simp
    have ext: "extends_by P s t" using resume_extends [OF c, of s E] r by simp
    show ?thesis
    proof (cases "outcome q'")
      case None
      with Cons.prems False r
      have st: "settle E ff sched (pending[?i := (fst (pending ! ?i), q')]) done t = Some (done', s')"
        by (simp add: settle_step)
      have "\<forall>x\<in>set (pending[?i := (fst (pending ! ?i), q')]). commands P (snd x)"
        using Cons.prems(1) cq set_update_subset_insert [of pending ?i "(fst (pending ! ?i), q')"]
        by auto
      from Cons.IH [OF this st] ext show ?thesis by (rule extends_by_trans [rotated])
    next
      case (Some res)
      have a: "\<forall>x\<in>set (take ?i pending @ drop (Suc ?i) pending). commands P (snd x)"
        using Cons.prems(1) by (auto dest: in_set_takeD in_set_dropD)
      show ?thesis
      proof (cases "ff \<and> isl res")
        case True
        with Cons.prems False r Some have "s' = t" by (simp add: settle_step)
        with ext show ?thesis by simp
      next
        case False
        with Cons.prems \<open>pending \<noteq> []\<close> r Some
        have st: "settle E ff sched (take ?i pending @ drop (Suc ?i) pending)
              (done @ [(fst (pending ! ?i), res)]) t = Some (done', s')"
          by (simp add: settle_step)
        from Cons.IH [OF a st] ext show ?thesis by (rule extends_by_trans [rotated])
      qed
    qed
  qed
qed


text \<open>
  With a schedule long enough for the requests the tasks can await, both aggregates
  settle; \<open>Promise.allSettled\<close> then holds one outcome for each position of the list.
\<close>

lemma start_all_length: "length (fst (start_all E ps s)) = length ps"
proof (induction ps arbitrary: s)
  case Nil
  then show ?case by simp
next
  case (Cons p ps)
  obtain q s' where a: "advance E p s = (q, s')" by (cases "advance E p s")
  obtain qs s'' where b: "start_all E ps s' = (qs, s'')" by (cases "start_all E ps s'")
  show ?case using Cons.IH [of s'] a b by simp
qed

lemma start_all_preserves:
  assumes "\<And>p s. Q p \<Longrightarrow> Q (fst (advance E p s))"
  shows "\<forall>p\<in>set ps. Q p \<Longrightarrow> \<forall>q\<in>set (fst (start_all E ps s)). Q q"
proof (induction ps arbitrary: s)
  case Nil
  then show ?case by simp
next
  case (Cons p ps)
  obtain q s' where a: "advance E p s = (q, s')" by (cases "advance E p s")
  obtain qs s'' where b: "start_all E ps s' = (qs, s'')" by (cases "start_all E ps s'")
  have "Q q" using assms [of p s] Cons.prems a by simp
  moreover have "\<forall>q\<in>set qs. Q q" using Cons.IH [of s'] Cons.prems b by simp
  ultimately show ?case using a b by simp
qed

lemma start_all_parked:
  "\<forall>q\<in>set (fst (start_all E ps s)). outcome q = None \<longrightarrow> parked q"
proof (induction ps arbitrary: s)
  case Nil
  then show ?case by simp
next
  case (Cons p ps)
  obtain q s' where a: "advance E p s = (q, s')" by (cases "advance E p s")
  obtain qs s'' where b: "start_all E ps s' = (qs, s'')" by (cases "start_all E ps s'")
  have "outcome q = None \<longrightarrow> parked q" using advance_parked [of E p s] a by simp
  moreover have "\<forall>q\<in>set qs. outcome q = None \<longrightarrow> parked q" using Cons.IH [of s'] b by simp
  ultimately show ?case using a b by simp
qed

lemma start_all_extends:
  "\<forall>p\<in>set ps. commands P p \<Longrightarrow> extends_by P s (snd (start_all E ps s))"
proof (induction ps arbitrary: s)
  case Nil
  then show ?case by (simp add: extends_by_refl)
next
  case (Cons p ps)
  obtain q s' where a: "advance E p s = (q, s')" by (cases "advance E p s")
  obtain qs s'' where b: "start_all E ps s' = (qs, s'')" by (cases "start_all E ps s'")
  have "extends_by P s s'" using advance_extends [of P p s E] Cons.prems a by simp
  moreover have "extends_by P s' s''" using Cons.IH [of s'] Cons.prems b by simp
  ultimately show ?case using a b extends_by_trans by fastforce
qed



lemma waiting_set: "x \<in> set (waiting qs) \<Longrightarrow> snd x \<in> set qs \<and> outcome (snd x) = None"
  by (auto simp: waiting_def in_set_enumerate_eq)


lemma waiting_length: "length (waiting qs) \<le> length qs"
  using length_filter_le [of _ "enumerate 0 qs"] by (simp add: waiting_def)

lemma waiting_budget:
  assumes "\<forall>q\<in>set qs. within q n" and "\<forall>q\<in>set qs. outcome q = None \<longrightarrow> parked q"
  shows "list_all2 (\<lambda>x b. parked (snd x) \<and> within (snd x) b) (waiting qs)
           (replicate (length (waiting qs)) n)"
  using assms waiting_set [of _ qs]
  by (auto simp: list_all2_conv_all_nth)

lemma pool_completes:
  assumes "\<forall>p\<in>set ps. within p n" and "n * length ps \<le> length sched"
  shows "settle E ff sched (waiting (fst (start_all E ps s))) (settled (fst (start_all E ps s)))
           (snd (start_all E ps s)) \<noteq> None"
proof -
  let ?qs = "fst (start_all E ps s)"
  have w: "\<forall>q\<in>set ?qs. within q n"
    using start_all_preserves [of "\<lambda>p. within p n" E ps s] advance_within assms(1) by blast
  have p: "\<forall>q\<in>set ?qs. outcome q = None \<longrightarrow> parked q" by (rule start_all_parked)
  have "length (waiting ?qs) \<le> length ps"
    using waiting_length [of ?qs] by (simp add: start_all_length)
  then have "length (waiting ?qs) * n \<le> length ps * n"
    by (rule mult_le_mono1)
  also have "length ps * n = n * length ps" by (rule mult.commute)
  finally have "length (waiting ?qs) * n \<le> length sched"
    using assms(2) by (rule le_trans)
  then have "sum_list (replicate (length (waiting ?qs)) n) \<le> length sched"
    by (simp add: sum_list_replicate)
  with waiting_budget [OF w p] show ?thesis by (rule settle_completes)
qed


lemma promise_all_completes:
  assumes "\<forall>p\<in>set ps. within p n" and "n * length ps \<le> length sched"
  shows "\<exists>r s'. promise_all E sched ps s = Some (r, s')"
  using pool_completes [OF assms, of E True s]
  by (auto simp: promise_all_def split: prod.splits sum.splits)



lemma promise_all_extends:
  assumes "\<forall>p\<in>set ps. commands P p" and "promise_all E sched ps s = Some (r, s')"
  shows "extends_by P s s'"
proof -
  obtain qs t where st: "start_all E ps s = (qs, t)" by (cases "start_all E ps s")
  have e1: "extends_by P s t" using start_all_extends [OF assms(1), of s E] st by simp
  have c: "\<forall>q\<in>set qs. commands P q"
    using start_all_preserves [of "commands P" E ps s] advance_commands assms(1) st by fastforce
  show ?thesis
  proof (cases "collect (settled qs)")
    case (Inl e)
    with assms(2) st have "s' = t" by (simp add: promise_all_def)
    with e1 show ?thesis by simp
  next
    case (Inr vs)
    with assms(2) st obtain d where
      "settle E True sched (waiting qs) (settled qs) t = Some (d, s')"
      by (auto simp: promise_all_def split: option.splits)
    moreover have "\<forall>x\<in>set (waiting qs). commands P (snd x)" using c waiting_set by blast
    ultimately have "extends_by P t s'" using settle_extends by blast
    with e1 show ?thesis by (rule extends_by_trans)
  qed
qed


subsection \<open>A task that is bound to throw\<close>

text \<open>
  When one of the tasks is bound to throw, the aggregate that rejects with the first
  rejection rejects, under every schedule long enough for the requests of the tasks.
\<close>

lemma doomed_await: "doomed E p \<Longrightarrow> doomed E (await p f)"
  by (induction p) simp_all

lemma doomed_await_then: "(\<And>x. doomed E (f x)) \<Longrightarrow> doomed E (await p f)"
  by (induction p) simp_all

lemma doomed_getPkgVersion:
  assumes "\<forall>w. str_includes (stdout (fst (env_exec E (''npm list '' @ name @ '' --depth=0'') None w))) ''empty''
             \<or> str_includes (stdout (fst (env_exec E (''npm list '' @ name @ '' --depth=0'') None w))) ''extraneous''"
  shows "doomed E (getPkgVersion name)"
proof -
  have ne: "stdout r \<noteq> []" if "str_includes (stdout r) ''empty'' \<or> str_includes (stdout r) ''extraneous''"
    for r :: exec_result
    using that by (cases "stdout r") auto
  show ?thesis
    using assms ne by (auto simp: getPkgVersion_def exec_def Let_def)
qed

lemma doomed_getRemotePkgVersion:
  assumes "\<forall>w. \<not> status (fst (env_exec E (''npm show '' @ name @ '' version'') None w))"
  shows "doomed E (getRemotePkgVersion name ''latest'')"
  using assms by (auto simp: getRemotePkgVersion_def exec_def Let_def split: option.splits)

lemma doomed_updateAllPkg_probe:
  assumes "(\<forall>w. str_includes (stdout (fst (env_exec E (''npm list '' @ replace name ''npm:'' [] @ '' --depth=0'') None w))) ''empty''
             \<or> str_includes (stdout (fst (env_exec E (''npm list '' @ replace name ''npm:'' [] @ '' --depth=0'') None w))) ''extraneous'')
         \<or> (\<forall>w. \<not> status (fst (env_exec E (''npm show '' @ replace name ''npm:'' [] @ '' version'') None w)))"
  shows "doomed E (updateAllPkg_probe pkg name)"
proof -
  let ?n = "replace name ''npm:'' []"
  from assms have "doomed E (getPkgVersion ?n) \<or> doomed E (getRemotePkgVersion ?n ''latest'')"
    using doomed_getPkgVersion [of E ?n] doomed_getRemotePkgVersion [of E ?n] by blast
  then show ?thesis
    unfolding updateAllPkg_probe_def Let_def
    by (blast intro: doomed_await doomed_await_then)
qed

lemma advance_doomed: "doomed E p \<Longrightarrow> doomed E (fst (advance E p s))"
  by (induction p arbitrary: s) (simp_all split: prod.splits)

lemma resume_doomed:
  assumes "doomed E p"
  shows "doomed E (fst (resume E p s))"
proof (cases p)
  case (Exec c d k)
  obtain r s' where e: "do_exec E c d s = (r, s')" by (cases "do_exec E c d s")
  then have "r = fst (env_exec E c d (world s))" by (auto simp: do_exec_def split: prod.splits)
  with assms Exec have "doomed E (k r)" by simp
  then show ?thesis using Exec e by (simp add: resume_def advance_doomed)
next
  case (RequireFile f b k)
  obtain r s' where e: "do_requireFile E f b s = (r, s')" by (cases "do_requireFile E f b s")
  then have "r = fst (env_requireFile E f b (world s))"
    by (auto simp: do_requireFile_def split: prod.splits)
  with assms RequireFile have "doomed E (k r)" by simp
  then show ?thesis using RequireFile e by (simp add: resume_def advance_doomed)
next
  case (GetPlugins f b k)
  obtain r s' where e: "do_getPlugins E f b s = (r, s')" by (cases "do_getPlugins E f b s")
  then have "r = fst (env_getPlugins E f b (world s))"
    by (auto simp: do_getPlugins_def split: prod.splits)
  with assms GetPlugins have "doomed E (k r)" by simp
  then show ?thesis using GetPlugins e by (simp add: resume_def advance_doomed)
qed (use assms in \<open>simp_all add: resume_def\<close>)

lemma outcome_doomed: "doomed E q \<Longrightarrow> outcome q = Some r \<Longrightarrow> isl r"
  by (cases q) auto

lemma nth_in_remove:
  assumes "k < length xs" and "k \<noteq> i"
  shows "xs ! k \<in> set (take i xs @ drop (Suc i) xs)"
proof (cases "k < i")
  case True
  then have "take i xs ! k = xs ! k" "k < length (take i xs)" using assms(1) by simp_all
  then have "xs ! k \<in> set (take i xs)" using nth_mem [of k "take i xs"] by simp
  then show ?thesis by simp
next
  case False
  with assms have "drop (Suc i) xs ! (k - Suc i) = xs ! k" "k - Suc i < length (drop (Suc i) xs)"
    by simp_all
  then have "xs ! k \<in> set (drop (Suc i) xs)" using nth_mem [of "k - Suc i" "drop (Suc i) xs"] by simp
  then show ?thesis by simp
qed

lemma map_filter_mem:
  "(i, q) \<in> set xs \<Longrightarrow> outcome q = Some r
   \<Longrightarrow> (i, r) \<in> set (List.map_filter (\<lambda>(i, q). map_option (Pair i) (outcome q)) xs)"
  by (induction xs) (auto simp: List.map_filter_simps split: option.splits)

lemma settled_mem:
  assumes "i < length qs" and "outcome (qs ! i) = Some r"
  shows "(i, r) \<in> set (settled qs)"
proof -
  have "(i, qs ! i) \<in> set (enumerate 0 qs)" using assms(1) by (simp add: in_set_enumerate_eq)
  from map_filter_mem [OF this assms(2)] show ?thesis by (simp add: settled_def)
qed

lemma settle_rejects:
  "\<exists>x\<in>set pending. doomed E (snd x)
   \<Longrightarrow> settle E True sched pending done s = Some (done', s')
   \<Longrightarrow> \<exists>x\<in>set done'. isl (snd x)"
proof (induction sched arbitrary: pending "done" s)
  case Nil
  then show ?case by (cases pending) auto
next
  case (Cons n sched)
  from Cons.prems(1) have ne: "pending \<noteq> []" by auto
  let ?i = "n mod length pending"
  have i: "?i < length pending" using ne by simp
  obtain q' t where r: "resume E (snd (pending ! ?i)) s = (q', t)"
    by (cases "resume E (snd (pending ! ?i)) s")
  from Cons.prems(1) obtain k where k: "k < length pending" "doomed E (snd (pending ! k))"
    by (auto simp: in_set_conv_nth)
  have dq: "doomed E q'" if "k = ?i"
    using resume_doomed [of E "snd (pending ! ?i)" s] k(2) that r by simp
  show ?case
  proof (cases "outcome q'")
    case None
    with Cons.prems(2) ne r
    have st: "settle E True sched (pending[?i := (fst (pending ! ?i), q')]) done t = Some (done', s')"
      by (simp add: settle_step)
    have "doomed E (snd (pending[?i := (fst (pending ! ?i), q')] ! k))"
      using k dq i by (cases "k = ?i") simp_all
    then have "\<exists>x\<in>set (pending[?i := (fst (pending ! ?i), q')]). doomed E (snd x)"
      using k(1) by (metis length_list_update nth_mem)
    from Cons.IH [OF this st] show ?thesis .
  next
    case (Some res)
    show ?thesis
    proof (cases "isl res")
      case True
      with Cons.prems(2) ne r Some have "done' = done @ [(fst (pending ! ?i), res)]"
        by (simp add: settle_step)
      with True show ?thesis by auto
    next
      case False
      with Cons.prems(2) ne r Some
      have st: "settle E True sched (take ?i pending @ drop (Suc ?i) pending)
                  (done @ [(fst (pending ! ?i), res)]) t = Some (done', s')"
        by (simp add: settle_step)
      have "k \<noteq> ?i" using dq outcome_doomed [of E q' res] Some False by auto
      then have "pending ! k \<in> set (take ?i pending @ drop (Suc ?i) pending)"
        using k(1) by (rule nth_in_remove [rotated])
      with k(2) have "\<exists>x\<in>set (take ?i pending @ drop (Suc ?i) pending). doomed E (snd x)" by blast
      from Cons.IH [OF this st] show ?thesis .
    qed
  qed
qed

lemma collect_rejects: "\<exists>x\<in>set done. isl (snd x) \<Longrightarrow> \<exists>t. collect done = Inl t"
  by (induction "done" rule: collect.induct) (auto split: sum.splits)

lemma start_all_doomed:
  "\<exists>p\<in>set ps. doomed E p \<Longrightarrow> \<exists>q\<in>set (fst (start_all E ps s)). doomed E q"
proof (induction ps arbitrary: s)
  case Nil
  then show ?case by simp
next
  case (Cons p ps)
  obtain q s1 where a: "advance E p s = (q, s1)" by (cases "advance E p s")
  obtain qs s2 where b: "start_all E ps s1 = (qs, s2)" by (cases "start_all E ps s1")
  show ?case
  proof (cases "doomed E p")
    case True
    then have "doomed E q" using advance_doomed [of E p s] a by simp
    then show ?thesis using a b by simp
  next
    case False
    with Cons.prems have "\<exists>p\<in>set ps. doomed E p" by simp
    from Cons.IH [OF this, of s1] b a show ?thesis by simp
  qed
qed

lemma promise_all_rejects:
  assumes "\<forall>p\<in>set ps. within p n" and "n * length ps \<le> length sched"
    and "\<exists>p\<in>set ps. doomed E p"
  shows "\<exists>t s'. promise_all E sched ps s = Some (Inl t, s')"
proof -
  obtain qs s1 where st: "start_all E ps s = (qs, s1)" by (cases "start_all E ps s")
  obtain q where q: "q \<in> set qs" "doomed E q"
    using start_all_doomed [OF assms(3), of s] st by auto
  show ?thesis
  proof (cases "collect (settled qs)")
    case (Inl t)
    with st show ?thesis by (simp add: promise_all_def)
  next
    case (Inr vs)
    have "outcome q = None"
    proof (rule ccontr)
      assume "outcome q \<noteq> None"
      then obtain r where r: "outcome q = Some r" by auto
      then have "isl r" using outcome_doomed q(2) by blast
      moreover obtain i where "i < length qs" "qs ! i = q" using q(1) by (auto simp: in_set_conv_nth)
      then have "(i, r) \<in> set (settled qs)"
        using r settled_mem by blast
      ultimately have "\<exists>x\<in>set (settled qs). isl (snd x)" by force
      from collect_rejects [OF this] Inr show False by simp
    qed
    moreover obtain i where "i < length qs" "qs ! i = q" using q(1) by (auto simp: in_set_conv_nth)
    ultimately have "(i, q) \<in> set (waiting qs)"
      by (auto simp: waiting_def in_set_enumerate_eq)
    with q(2) have w: "\<exists>x\<in>set (waiting qs). doomed E (snd x)" by force
    obtain r s' where p: "promise_all E sched ps s = Some (r, s')"
      using promise_all_completes [OF assms(1,2)] by blast
    with st Inr obtain dn where
      d: "settle E True sched (waiting qs) (settled qs) s1 = Some (dn, s')" "r = collect dn"
      by (auto simp: promise_all_def split: option.splits)
    from collect_rejects [OF settle_rejects [OF w d(1)]] d(2) p show ?thesis by auto
  qed
qed

section \<open>Updating all git plugins\<close>








section \<open>Sorting the report\<close>

text \<open>
  With the comparator of the report, the engine's sort puts the lines that contain the
  success text first, in the reverse of their order, and leaves the other lines behind
  them in their order.
\<close>

lemma success_first_neg: "success_first a b < 0 \<longleftrightarrow> is_success a"
  by (simp add: success_first_def is_success_def)

lemma binary_search_success:
  "is_success pivot \<Longrightarrow> binary_search success_first pivot xs left right = left"
proof (induction success_first pivot xs left right rule: binary_search.induct)
  case (1 pivot xs left right)
  then show ?case
    by (subst binary_search.simps) (simp add: success_first_neg Let_def)
qed

lemma binary_search_failure:
  "\<not> is_success pivot \<Longrightarrow> left \<le> right
   \<Longrightarrow> binary_search success_first pivot xs left right = right"
proof (induction success_first pivot xs left right rule: binary_search.induct)
  case (1 pivot xs left right)
  show ?case
  proof (cases "left < right")
    case True
    let ?mid = "left + (right - left) div 2"
    have "?mid + 1 \<le> right" using True by simp
    with "1.hyps"(2) [OF True refl] "1.prems" True
    have "binary_search success_first pivot xs (?mid + 1) right = right"
      by (simp add: success_first_neg)
    with True "1.prems" show ?thesis
      by (subst binary_search.simps) (simp add: success_first_neg Let_def)
  next
    case False
    with "1.prems" show ?thesis by (subst binary_search.simps) simp
  qed
qed

lemma binary_insert_success_first:
  "binary_insert success_first (successes_first xs) pivot = successes_first (xs @ [pivot])"
  by (cases "is_success pivot")
     (simp_all add: binary_insert_def binary_search_success binary_search_failure
        successes_first_def Let_def)

lemma foldl_binary_insert:
  "foldl (binary_insert success_first) (successes_first xs) ys = successes_first (xs @ ys)"
proof (induction ys arbitrary: xs)
  case Nil
  then show ?case by simp
next
  case (Cons y ys)
  from Cons [of "xs @ [y]"] show ?case by (simp add: binary_insert_success_first)
qed

lemma run_length_descending:
  "run_length success_first True previous zs = length (takeWhile is_success zs)"
  by (induction zs arbitrary: previous) (simp_all add: success_first_neg Let_def)

lemma run_length_ascending:
  "run_length success_first False previous zs = length (takeWhile (\<lambda>a. \<not> is_success a) zs)"
  by (induction zs arbitrary: previous) (simp_all add: success_first_neg Let_def not_less [symmetric])

lemma take_takeWhile: "take (length (takeWhile P zs)) zs = takeWhile P zs"
  by (induction zs) simp_all

lemma drop_takeWhile: "drop (length (takeWhile P zs)) zs = dropWhile P zs"
  by (induction zs) simp_all

lemma filter_takeWhile_all: "filter P (takeWhile P zs) = takeWhile P zs"
  by (induction zs) simp_all

lemma filter_takeWhile_none: "filter (\<lambda>a. \<not> P a) (takeWhile P zs) = []"
  by (induction zs) simp_all

lemma count_and_make_run_success_first:
  "count_and_make_run success_first (x # y # rest) =
     (if is_success y
      then (successes_first (x # y # takeWhile is_success rest), dropWhile is_success rest)
      else (successes_first (x # y # takeWhile (\<lambda>a. \<not> is_success a) rest),
            dropWhile (\<lambda>a. \<not> is_success a) rest))"
proof (cases "is_success y")
  case True
  have "filter (\<lambda>a. \<not> is_success a) (takeWhile is_success rest) = []"
    by (rule filter_takeWhile_none)
  with True show ?thesis
    by (simp add: count_and_make_run_def success_first_neg Let_def run_length_descending
        take_takeWhile drop_takeWhile successes_first_def filter_takeWhile_all)
next
  case False
  have a: "filter is_success (takeWhile (\<lambda>a. \<not> is_success a) rest) = []"
    using filter_takeWhile_none [of "\<lambda>a. \<not> is_success a" rest] by simp
  have b: "filter (\<lambda>a. \<not> is_success a) (takeWhile (\<lambda>a. \<not> is_success a) rest)
           = takeWhile (\<lambda>a. \<not> is_success a) rest"
    by (rule filter_takeWhile_all)
  from False a b show ?thesis
    by (simp add: count_and_make_run_def success_first_neg Let_def run_length_ascending
        take_takeWhile drop_takeWhile successes_first_def)
qed

lemma array_sort_success_first: "array_sort success_first xs = successes_first xs"
proof (cases xs)
  case Nil
  then show ?thesis by (simp add: array_sort_def successes_first_def)
next
  case (Cons x ys)
  show ?thesis
  proof (cases ys)
    case Nil
    with Cons show ?thesis by (simp add: array_sort_def successes_first_def)
  next
    case (Cons y rest)
    have "foldl (binary_insert success_first) (successes_first (x # y # takeWhile P rest))
            (dropWhile P rest) = successes_first (x # y # rest)" for P
      using foldl_binary_insert [of "x # y # takeWhile P rest" "dropWhile P rest"] by simp
    with Cons \<open>xs = x # ys\<close> show ?thesis
      by (simp add: array_sort_def count_and_make_run_success_first)
  qed
qed

section \<open>Updating all packages\<close>

lemma run_getPlugins:
  "run E (getPlugins k b) s = (case do_getPlugins E k b s of
                                 (Inl t, s') \<Rightarrow> (Inl t, s') | (Inr l, s') \<Rightarrow> (Inr l, s'))"
  by (simp add: getPlugins_def rethrow_def split: prod.splits sum.splits)

lemma run_updateAllPkg_list:
  assumes "run E (getPlugins ''npm'' False) s = (Inr listed, s0)"
    and "run E (getPkg False) s0 = (Inr pkg, s1)"
  shows "run E updateAllPkg_list s = (Inr (listed @ [''node-karin''], pkg), s1)"
  using assms by (simp add: updateAllPkg_list_def run_await)

lemma commands_updateAllPkg_list: "commands P updateAllPkg_list"
  by (simp add: updateAllPkg_list_def getPlugins_def getPkg_def requireFile_def rethrow_def
      split: sum.splits)

lemma commands_updateAllPkg_probe:
  "commands (\<lambda>c. \<not> prefix ''pnpm up'' c) (updateAllPkg_probe pkg name)"
  by (simp add: updateAllPkg_probe_def getPkgVersion_def getRemotePkgVersion_def getPkg_def
      requireFile_def regexp_exec_def rethrow_def exec_def Let_def
      split: option.splits sum.splits)


lemma batch_getPkg:
  "run batch_env (getPkg b) \<lparr>world = w, trace = t\<rparr> = (Inr (manifest_of w), \<lparr>world = w, trace = t\<rparr>)"
  by (simp add: getPkg_def requireFile_def rethrow_def do_requireFile_def batch_env_def
      manifest_of_def)


text \<open>
  Whatever the registry lists, a schedule long enough for the three requests each
  package's resolution can await lets \<open>updateAllPkg\<close> return.
\<close>

lemma updateAllPkg_returns:
  assumes "run E (getPlugins ''npm'' False) s = (Inr listed, s0)"
    and "3 * (length listed + 1) \<le> length sched"
  shows "updateAllPkg E sched s \<noteq> None"
proof (cases "run E (getPkg False) s0")
  case (Pair r s1)
  show ?thesis
  proof (cases r)
    case (Inl t)
    with Pair assms(1) show ?thesis
      by (simp add: updateAllPkg_def updateAllPkg_list_def run_await)
  next
    case (Inr pkg)
    let ?tasks = "map (updateAllPkg_probe pkg) (listed @ [''node-karin''])"
    have "\<forall>p\<in>set ?tasks. within p 3"
      using within_updateAllPkg_probe by (auto simp: eval_nat_numeral)
    moreover have "3 * length ?tasks \<le> length sched" using assms(2) by simp
    ultimately obtain res s2 where "promise_all E sched ?tasks s1 = Some (res, s2)"
      using promise_all_completes by blast
    moreover have "run E updateAllPkg_list s = (Inr (listed @ [''node-karin''], pkg), s1)"
      using assms(1) Pair Inr by (simp add: run_updateAllPkg_list)
    ultimately show ?thesis
      by (cases res) (simp_all add: updateAllPkg_def)
  qed
qed





text \<open>
  C5, as the code has it. The resolution phase has no handler of its own for a package.
  Let the registry and the manifest be read, and let one of the packages, a listed one or
  \<open>node-karin\<close>, be such that its resolution throws: its listing carries one of the
  markers \<open>empty\<close> and \<open>extraneous\<close> in every world, or the query for its remote
  version fails in every world. Then, under every schedule long enough for the three
  requests of each package, the aggregate wait rejects with a thrown value, and
  \<open>updateAllPkg\<close> ends with what its outer handler makes of it: it returns the message
  of the error, or the text that says to look at the log when the message is empty, and
  throws in turn when what was thrown is \<open>null\<close>. No batch report is made, and from the
  call to the return the runner is given no command that begins with \<open>pnpm up\<close>.
\<close>

theorem updateAllPkg_rejected:
  assumes "run E (getPlugins ''npm'' False) s = (Inr listed, s0)"
    and "run E (getPkg False) s0 = (Inr pkg, s1)"
    and "entry \<in> set (listed @ [''node-karin''])"
    and "(\<forall>w. str_includes (stdout (fst (env_exec E
                  (''npm list '' @ replace entry ''npm:'' [] @ '' --depth=0'') None w))) ''empty''
              \<or> str_includes (stdout (fst (env_exec E
                  (''npm list '' @ replace entry ''npm:'' [] @ '' --depth=0'') None w))) ''extraneous'')
         \<or> (\<forall>w. \<not> status (fst (env_exec E
                  (''npm show '' @ replace entry ''npm:'' [] @ '' version'') None w)))"
    and "3 * (length listed + 1) \<le> length sched"
  shows "\<exists>t s2. promise_all E sched (map (updateAllPkg_probe pkg) (listed @ [''node-karin''])) s1
                   = Some (Inl t, s2)
                 \<and> updateAllPkg E sched s = Some (report_error t, s2)
                 \<and> extends_by (\<lambda>c. \<not> prefix ''pnpm up'' c) s s2"
proof -
  let ?P = "\<lambda>c. \<not> prefix ''pnpm up'' c"
  let ?tasks = "map (updateAllPkg_probe pkg) (listed @ [''node-karin''])"
  have l: "run E updateAllPkg_list s = (Inr (listed @ [''node-karin''], pkg), s1)"
    using assms(1,2) by (rule run_updateAllPkg_list)
  have w: "\<forall>p\<in>set ?tasks. within p 3"
    using within_updateAllPkg_probe by (auto simp: eval_nat_numeral)
  have n: "3 * length ?tasks \<le> length sched" using assms(5) by simp
  have "doomed E (updateAllPkg_probe pkg entry)"
    using assms(4) by (rule doomed_updateAllPkg_probe)
  then have d: "\<exists>p\<in>set ?tasks. doomed E p" using assms(3) by auto
  obtain t s2 where r: "promise_all E sched ?tasks s1 = Some (Inl t, s2)"
    using promise_all_rejects [OF w n d] by blast
  with l have result: "updateAllPkg E sched s = Some (report_error t, s2)"
    by (simp add: updateAllPkg_def)
  have "extends_by ?P s s1"
    using extends_by_run [where P = ?P and p = updateAllPkg_list and E = E and s = s]
      commands_updateAllPkg_list [of ?P] l by simp
  moreover have "extends_by ?P s1 s2"
    using promise_all_extends [where P = ?P, OF _ r] commands_updateAllPkg_probe by simp
  ultimately have "extends_by ?P s s2" by (rule extends_by_trans)
  with r result show ?thesis by blast
qed

theorem updateAllPkg_rejected_witness:
  "updateAllPkg batch_env [0, 0, 0, 0, 0, 0, 0, 0, 0] (start broken_project) =
     Some (Inr (msg_get_failed @ ''gone'' @ msg_not_installed),
           \<lparr>world = broken_project, trace = [(''npm list gone --depth=0'', None)]\<rparr>)"
proof -
  let ?sched = "[0, 0, 0, 0, 0, 0, 0, 0, 0] :: nat list"
  let ?s2 = "\<lparr>world = broken_project, trace = [(''npm list gone --depth=0'', None)]\<rparr>"
  have listed: "run batch_env (getPlugins ''npm'' False) (start broken_project)
                  = (Inr [''npm:gone'', ''npm:foo''], start broken_project)"
    by code_simp
  have pkg: "run batch_env (getPkg False) (start broken_project)
               = (Inr (manifest_of broken_project), start broken_project)"
    using batch_getPkg [of False broken_project "[]"] by (simp add: start_def)
  have entry: "''npm:gone'' \<in> set ([''npm:gone'', ''npm:foo''] @ [''node-karin''])" by simp
  have name: "replace ''npm:gone'' ''npm:'' [] = ''gone''" by code_simp
  have "\<not> status (fst (env_exec batch_env ''npm show gone version'' None w))" for w
    by code_simp
  then have unknown: "(\<forall>w. str_includes (stdout (fst (env_exec batch_env
                  (''npm list '' @ replace ''npm:gone'' ''npm:'' [] @ '' --depth=0'') None w))) ''empty''
              \<or> str_includes (stdout (fst (env_exec batch_env
                  (''npm list '' @ replace ''npm:gone'' ''npm:'' [] @ '' --depth=0'') None w))) ''extraneous'')
         \<or> (\<forall>w. \<not> status (fst (env_exec batch_env
                  (''npm show '' @ replace ''npm:gone'' ''npm:'' [] @ '' version'') None w)))"
    by (simp add: name)
  have fuel: "3 * (length [''npm:gone'', ''npm:foo''] + 1) \<le> length ?sched" by simp
  from updateAllPkg_rejected [OF listed pkg entry unknown fuel]
  obtain t s2 where
    rejected: "promise_all batch_env ?sched
                 (map (updateAllPkg_probe (manifest_of broken_project))
                    ([''npm:gone'', ''npm:foo''] @ [''node-karin''])) (start broken_project)
               = Some (Inl t, s2)"
    and result: "updateAllPkg batch_env ?sched (start broken_project) = Some (report_error t, s2)"
    by blast
  have "promise_all batch_env ?sched
          (map (updateAllPkg_probe (manifest_of broken_project))
             ([''npm:gone'', ''npm:foo''] @ [''node-karin''])) (start broken_project)
        = Some (Inl (not_installed ''gone''), ?s2)"
    by code_simp
  with rejected have "t = not_installed ''gone''" "s2 = ?s2" by simp_all
  moreover have "report_error (not_installed ''gone'')
                   = Inr (msg_get_failed @ ''gone'' @ msg_not_installed)"
    by code_simp
  ultimately show ?thesis using result by simp
qed


text \<open>
  C5, as the claim has it, fails: \<open>gone\<close> is listed and not installed, so its
  resolution throws. Even in a run where \<open>foo\<close> and \<open>node-karin\<close> have both been
  resolved before that, \<open>updateAllPkg\<close> returns the message of the error, which mentions
  neither of them.
\<close>

theorem updateAllPkg_swallow_counterexample:
  "updateAllPkg batch_env [1, 1, 1, 1, 0] (start broken_project) =
     Some (Inr (msg_get_failed @ ''gone'' @ msg_not_installed),
           \<lparr>world = broken_project,
              trace = [(''npm list foo --depth=0'', None), (''npm show foo version'', None),
                       (''npm list node-karin --depth=0'', None),
                       (''npm show node-karin version'', None),
                       (''npm list gone --depth=0'', None)]\<rparr>)
   \<and> \<not> str_includes (msg_get_failed @ ''gone'' @ msg_not_installed) ''foo''
   \<and> \<not> str_includes (msg_get_failed @ ''gone'' @ msg_not_installed) ''node-karin''"
  by code_simp


text \<open>
  C6, as the code has it. When the batch command reports no error and the manifest is read
  again, the report of \<open>updateAllPkg\<close>, for fewer than 64 lines, has all the lines that
  contain the success text before all the others; the others keep their relative order,
  and the lines with the success text stand in the reverse of the order they had before
  the step.
\<close>

theorem updateAllPkg_report_order:
  assumes "length (plan_cmd pl) \<noteq> 1"
    and "do_exec E (join (plan_cmd pl) '' '') None s = (r, s1)"
    and "error r = None"
    and "run E (getPkg True) s1 = (Inr updatedPkg, s2)"
    and "length (updateAllPkg_verified pl updatedPkg) < 64"
  shows "run E (updateAllPkg_finish pl) s =
           (Inr (join (rev (filter (\<lambda>a. str_includes a msg_success)
                              (updateAllPkg_verified pl updatedPkg))
                       @ filter (\<lambda>a. \<not> str_includes a msg_success)
                           (updateAllPkg_verified pl updatedPkg))
                      [CHR 0x0A]), s2)"
  using assms
  by (simp add: updateAllPkg_finish_def run_await run_exec Let_def array_sort_success_first
      successes_first_def is_success_def [abs_def])
theorem updateAllPkg_report_order_witness:
  "fst (run batch_env (updateAllPkg_finish outdated_plan) (start outdated_project)) =
     Inr (join [updated_line ''node-karin'' (Some (Str ''1.7.0'')) (Some (Str ''1.8.0'')),
                updated_line ''foo'' (Some (Str ''1.0.0'')) (Some (Str ''1.2.0'')),
                manual_hint_line ''pin'' (Some (Str ''3.0.0''))] [CHR 0x0A])"
proof -
  let ?s1 = "\<lparr>world = updated_project,
              trace = [(''pnpm up foo@1.2.0 pin@3.0.0 node-karin@1.8.0'', None)]\<rparr>"
  let ?lines = "updateAllPkg_verified outdated_plan (manifest_of updated_project)"
  have some: "length (plan_cmd outdated_plan) \<noteq> 1" by code_simp
  have up: "do_exec batch_env (join (plan_cmd outdated_plan) '' '') None (start outdated_project)
              = (ok_result [], ?s1)"
    by code_simp
  have ok: "error (ok_result []) = None" by code_simp
  have pkg: "run batch_env (getPkg True) ?s1 = (Inr (manifest_of updated_project), ?s1)"
    by (rule batch_getPkg)
  have lines: "?lines = [updated_line ''foo'' (Some (Str ''1.0.0'')) (Some (Str ''1.2.0'')),
                         manual_hint_line ''pin'' (Some (Str ''3.0.0'')),
                         updated_line ''node-karin'' (Some (Str ''1.7.0'')) (Some (Str ''1.8.0''))]"
    by code_simp
  have short: "length ?lines < 64" by (simp add: lines)
  have "rev (filter (\<lambda>a. str_includes a msg_success) ?lines)
          @ filter (\<lambda>a. \<not> str_includes a msg_success) ?lines
        = [updated_line ''node-karin'' (Some (Str ''1.7.0'')) (Some (Str ''1.8.0'')),
           updated_line ''foo'' (Some (Str ''1.0.0'')) (Some (Str ''1.2.0'')),
           manual_hint_line ''pin'' (Some (Str ''3.0.0''))]"
    by code_simp
  with updateAllPkg_report_order [OF some up ok pkg short] show ?thesis by simp
qed


text \<open>
  C6, as the claim has it, fails: before the step the lines are those of \<open>foo\<close>
  (success), \<open>pin\<close> (failure) and \<open>node-karin\<close> (success); in the report the line of
  \<open>node-karin\<close> comes before the line of \<open>foo\<close>, so the two successes have not kept
  their relative order.
\<close>

theorem updateAllPkg_stable_counterexample:
  "updateAllPkg_verified outdated_plan (manifest_of updated_project)
     = [updated_line ''foo'' (Some (Str ''1.0.0'')) (Some (Str ''1.2.0'')),
        manual_hint_line ''pin'' (Some (Str ''3.0.0'')),
        updated_line ''node-karin'' (Some (Str ''1.7.0'')) (Some (Str ''1.8.0''))]
   \<and> map_option fst (updateAllPkg batch_env [0, 0, 0, 0, 0, 0, 0, 0, 0] (start outdated_project))
     = Some (Inr (join [updated_line ''node-karin'' (Some (Str ''1.7.0'')) (Some (Str ''1.8.0'')),
                        updated_line ''foo'' (Some (Str ''1.0.0'')) (Some (Str ''1.2.0'')),
                        manual_hint_line ''pin'' (Some (Str ''3.0.0''))] [CHR 0x0A]))
   \<and> map_option fst (updateAllPkg batch_env [0, 0, 0, 0, 0, 0, 0, 0, 0] (start outdated_project))
     \<noteq> Some (Inr (join [updated_line ''foo'' (Some (Str ''1.0.0'')) (Some (Str ''1.2.0'')),
                        updated_line ''node-karin'' (Some (Str ''1.7.0'')) (Some (Str ''1.8.0'')),
                        manual_hint_line ''pin'' (Some (Str ''3.0.0''))] [CHR 0x0A]))"
  by code_simp

end
